theory Spec2Isabelle
  imports Complex_Main
begin

section \<open>Values exchanged with the libraries\<close>

text \<open>
  The server (\<^verbatim>\<open>diffusers_server/server.py\<close>) drives three libraries: torch (device probing
  and random generators), diffusers (pipeline construction and inference) and the
  filesystem functions of \<^verbatim>\<open>os.path\<close>. Their objects are opaque handles here; what they
  compute is a parameter of the model (record \<open>env\<close> below). Python strings are modelled
  as HOL strings, that is as sequences of code points below 256. Calls to the logger are
  left out.
\<close>

datatype device = Cuda | Mps | Cpu

datatype dtype = Float16 | Float32

datatype pipe = Pipe nat

datatype generator = Generator nat

datatype image = RawImage nat

type_synonym bytes = "nat list"

subsection \<open>Exceptions\<close>

text \<open>
  A raised exception carries its class (only as far as an \<^verbatim>\<open>except\<close> clause of the
  server tells classes apart), the text \<^verbatim>\<open>str(e)\<close>, the explicit cause \<^verbatim>\<open>__cause__\<close> set by
  \<^verbatim>\<open>raise ... from ...\<close>, and the implicit \<^verbatim>\<open>__context__\<close> set when it is raised inside a
  handler. Only subclasses of \<^verbatim>\<open>Exception\<close> are modelled.
\<close>

datatype exn_kind = ValueError | RuntimeError | IndexError | HTTPException nat | OtherError

datatype exn = Exn (exn_kind: exn_kind) (exn_str: string)
  (exn_cause: "exn option") (exn_context: "exn option")

subsection \<open>Arguments of one inference call\<close>

record call_args =
  arg_prompt :: string
  arg_negative_prompt :: "string option"
  arg_width :: int
  arg_height :: int
  arg_num_inference_steps :: int
  arg_guidance_scale :: real
  arg_generator :: "generator option"

subsection \<open>The environment\<close>

text \<open>
  Every library function is a function of its arguments that either returns or raises
  (\<open>Inl\<close>). \<open>manual_seed d s\<close> stands for \<^verbatim>\<open>torch.Generator(device=d).manual_seed(s)\<close>,
  \<open>run_pipeline p a\<close> for the call \<^verbatim>\<open>pipeline(...)\<close> and the read of \<^verbatim>\<open>result.images\<close>,
  \<open>save_png\<close> for \<^verbatim>\<open>image.save(buffer, format="PNG")\<close> followed by \<^verbatim>\<open>buffer.getvalue()\<close>.
  \<open>int_max_str_digits\<close> is \<^verbatim>\<open>sys.get_int_max_str_digits()\<close> (0 switches the limit off),
  \<open>int_error_text s\<close> the text of the \<^verbatim>\<open>ValueError\<close> that \<^verbatim>\<open>int(s)\<close> raises,
  \<open>http_exception_str\<close> the \<^verbatim>\<open>__str__\<close> of the web framework's \<^verbatim>\<open>HTTPException\<close>, and
  \<open>uvicorn_run\<close> the outcome of serving until the server stops.
\<close>

record env =
  cuda_is_available :: bool
  mps_is_available :: bool
  isfile :: "string \<Rightarrow> bool"
  isdir :: "string \<Rightarrow> bool"
  auto_from_pretrained :: "string \<Rightarrow> dtype \<Rightarrow> exn + pipe"
  sd_from_pretrained :: "string \<Rightarrow> dtype \<Rightarrow> exn + pipe"
  diffusion_from_pretrained :: "string \<Rightarrow> string option \<Rightarrow> dtype \<Rightarrow> exn + pipe"
  pipe_to :: "pipe \<Rightarrow> device \<Rightarrow> exn + pipe"
  has_enable_attention_slicing :: "pipe \<Rightarrow> bool"
  enable_attention_slicing :: "pipe \<Rightarrow> exn option"
  manual_seed :: "device \<Rightarrow> int \<Rightarrow> exn + generator"
  run_pipeline :: "pipe \<Rightarrow> call_args \<Rightarrow> exn + image list"
  save_png :: "image \<Rightarrow> exn + bytes"
  b64encode :: "bytes \<Rightarrow> string"
  time_now :: int
  int_max_str_digits :: nat
  int_error_text :: "string \<Rightarrow> string"
  http_exception_str :: "nat \<Rightarrow> string \<Rightarrow> string"
  uvicorn_run :: "exn option"

section \<open>Strings\<close>

text \<open>\<^verbatim>\<open>str.lower()\<close> on code points below 256: A-Z and the Latin-1 capitals.\<close>

definition lower_char :: "char \<Rightarrow> char" where
  "lower_char c =
     (let n = (of_char c :: nat)
      in if (65 \<le> n \<and> n \<le> 90) \<or> (192 \<le> n \<and> n \<le> 222 \<and> n \<noteq> 215)
         then char_of (n + 32) else c)"

definition lower :: "string \<Rightarrow> string" where
  "lower s = map lower_char s"

text \<open>\<^verbatim>\<open>s.split(sep)\<close> for a separator of one character: never an empty list.\<close>

fun py_split :: "char \<Rightarrow> string \<Rightarrow> string list" where
  "py_split sep [] = [[]]"
| "py_split sep (c # cs) =
     (if c = sep then [] # py_split sep cs
      else (case py_split sep cs of
              [] \<Rightarrow> [[c]]
            | p # ps \<Rightarrow> (c # p) # ps))"

definition endswith :: "string \<Rightarrow> string \<Rightarrow> bool" where
  "endswith s suffix = (length suffix \<le> length s \<and> drop (length s - length suffix) s = suffix)"

subsection \<open>\<^verbatim>\<open>int(s)\<close> for a string, base 10\<close>

text \<open>
  CPython first maps the white space beyond ASCII (below 256: U+0085 and U+00A0) to a
  blank, then skips leading white space (U+0009 to U+000D and the blank), reads an
  optional sign and a run of digits and underscores (no underscore first, last or
  doubled, at least one digit), refuses more digits than the configured limit, skips
  trailing white space and must then be at the end of the string.
\<close>

definition is_c_space :: "char \<Rightarrow> bool" where
  "is_c_space c = (let n = (of_char c :: nat) in (9 \<le> n \<and> n \<le> 13) \<or> n = 32)"

definition space_to_ascii :: "char \<Rightarrow> char" where
  "space_to_ascii c =
     (let n = (of_char c :: nat) in if n = 133 \<or> n = 160 then CHR '' '' else c)"

definition is_digit :: "char \<Rightarrow> bool" where
  "is_digit c = (let n = (of_char c :: nat) in 48 \<le> n \<and> n \<le> 57)"

definition digit_val :: "char \<Rightarrow> nat" where
  "digit_val c = of_char c - 48"

definition digits_val :: "string \<Rightarrow> nat" where
  "digits_val ds = foldl (\<lambda>a c. 10 * a + digit_val c) 0 ds"

fun double_underscore :: "string \<Rightarrow> bool" where
  "double_underscore (a # b # cs) =
     ((a = CHR ''_'' \<and> b = CHR ''_'') \<or> double_underscore (b # cs))"
| "double_underscore _ = False"

definition over_digit_limit :: "env \<Rightarrow> nat \<Rightarrow> bool" where
  "over_digit_limit env digits =
     (640 < digits \<and> 0 < int_max_str_digits env \<and> int_max_str_digits env < digits)"

text \<open>The optional sign: whether it is a minus, and what follows it.\<close>

definition strip_sign :: "string \<Rightarrow> bool \<times> string" where
  "strip_sign t =
     (case t of
        [] \<Rightarrow> (False, t)
      | c # r \<Rightarrow> if c = CHR ''+'' then (False, r)
                 else if c = CHR ''-'' then (True, r) else (False, t))"

text \<open>The digits after the sign, up to the end of the string: their value, or nothing.\<close>

definition magnitude :: "env \<Rightarrow> string \<Rightarrow> nat option" where
  "magnitude env u =
     (let body = takeWhile (\<lambda>c. is_digit c \<or> c = CHR ''_'') u;
          rest = dropWhile (\<lambda>c. is_digit c \<or> c = CHR ''_'') u;
          digits = filter is_digit body
      in if body = [] then None
         else if hd body = CHR ''_'' \<or> last body = CHR ''_'' \<or> double_underscore body
           then None
         else if over_digit_limit env (length digits) then None
         else if dropWhile is_c_space rest \<noteq> [] then None
         else Some (digits_val digits))"

definition py_int :: "env \<Rightarrow> string \<Rightarrow> exn + int" where
  "py_int env s =
     (case strip_sign (dropWhile is_c_space (map space_to_ascii s)) of
        (negative, u) \<Rightarrow>
          (case magnitude env u of
             None \<Rightarrow> Inl (Exn ValueError (int_error_text env s) None None)
           | Some m \<Rightarrow> Inr (if negative then - int m else int m)))"

section \<open>Size strings\<close>

text \<open>
  \<^verbatim>\<open>parse_size\<close>: the body of the \<^verbatim>\<open>try\<close>, then the handler that wraps every
  \<^verbatim>\<open>ValueError\<close> of the body in a new \<^verbatim>\<open>ValueError\<close> quoting the argument.
\<close>

definition parse_size_try :: "env \<Rightarrow> string \<Rightarrow> exn + (int \<times> int)" where
  "parse_size_try env sz =
     (case py_split CHR ''x'' (lower sz) of
        [p0, p1] \<Rightarrow>
          (case py_int env p0 of
             Inl e \<Rightarrow> Inl e
           | Inr width \<Rightarrow>
               (case py_int env p1 of
                  Inl e \<Rightarrow> Inl e
                | Inr height \<Rightarrow> Inr (width, height)))
      | _ \<Rightarrow> Inl (Exn ValueError (''Invalid size format: '' @ sz) None None))"

definition parse_size :: "env \<Rightarrow> string \<Rightarrow> exn + (int \<times> int)" where
  "parse_size env sz =
     (case parse_size_try env sz of
        Inr r \<Rightarrow> Inr r
      | Inl e \<Rightarrow>
          Inl (Exn ValueError
                 (''Invalid size format '' @ [CHR 0x27] @ sz @ [CHR 0x27]
                    @ ''. Expected format like '' @ [CHR 0x27] @ ''512x512'' @ [CHR 0x27]
                    @ '': '' @ exn_str e)
                 None (Some e)))"

section \<open>Packaged archives\<close>

definition is_dduf_file :: "env \<Rightarrow> string \<Rightarrow> bool" where
  "is_dduf_file env path = (endswith (lower path) ''.dduf'' \<and> isfile env path)"

text \<open>\<^verbatim>\<open>os.path.basename\<close> and \<^verbatim>\<open>os.path.dirname\<close> of \<^verbatim>\<open>posixpath\<close>.\<close>

definition basename :: "string \<Rightarrow> string" where
  "basename p = rev (takeWhile (\<lambda>c. c \<noteq> CHR ''/'') (rev p))"

definition rstrip :: "char \<Rightarrow> string \<Rightarrow> string" where
  "rstrip sep s = rev (dropWhile (\<lambda>c. c = sep) (rev s))"

definition dirname :: "string \<Rightarrow> string" where
  "dirname p =
     (let head = rev (dropWhile (\<lambda>c. c \<noteq> CHR ''/'') (rev p))
      in if head \<noteq> [] \<and> head \<noteq> replicate (length head) CHR ''/''
         then rstrip CHR ''/'' head else head)"

section \<open>Server state and the calls it makes\<close>

text \<open>The three module globals.\<close>

record server_state =
  pipeline :: "pipe option"
  current_model :: "string option"
  served_model_name :: "string option"

text \<open>
  Every function of the server returns, besides its result, the library calls it made,
  in the order it made them.
\<close>

datatype event =
    AutoFromPretrained string dtype
  | SDFromPretrained string dtype
  | DiffusionFromPretrained string "string option" dtype
  | PipeTo pipe device
  | EnableAttentionSlicing pipe
  | ManualSeed device int
  | PipelineCall pipe call_args
  | SavePng image

section \<open>Loading\<close>

definition dduf_error :: "exn \<Rightarrow> exn" where
  "dduf_error e = Exn RuntimeError (''Failed to load DDUF file: '' @ exn_str e) None (Some e)"

definition load_model_from_dduf ::
  "env \<Rightarrow> string \<Rightarrow> device \<Rightarrow> dtype \<Rightarrow> event list \<times> (exn + pipe)" where
  "load_model_from_dduf env dduf_path dev dt =
     (let dduf_dir = dirname dduf_path;
          dduf_filename = basename dduf_path;
          made = [DiffusionFromPretrained dduf_dir (Some dduf_filename) dt]
      in case diffusion_from_pretrained env dduf_dir (Some dduf_filename) dt of
           Inl e \<Rightarrow> (made, Inl (dduf_error e))
         | Inr pipe \<Rightarrow>
             (case pipe_to env pipe dev of
                Inl e \<Rightarrow> (made @ [PipeTo pipe dev], Inl (dduf_error e))
              | Inr pipe' \<Rightarrow> (made @ [PipeTo pipe dev], Inr pipe')))"

text \<open>The device probe of \<^verbatim>\<open>load_model\<close>: CUDA, then MPS, then the CPU.\<close>

definition select_device :: "env \<Rightarrow> device \<times> dtype" where
  "select_device env =
     (if cuda_is_available env then (Cuda, Float16)
      else if mps_is_available env then (Mps, Float16)
      else (Cpu, Float32))"

text \<open>The nested \<^verbatim>\<open>try\<close> blocks of \<^verbatim>\<open>load_model\<close>.\<close>

definition from_pretrained_chain ::
  "env \<Rightarrow> string \<Rightarrow> dtype \<Rightarrow> event list \<times> (exn + pipe)" where
  "from_pretrained_chain env model_path dt =
     (case auto_from_pretrained env model_path dt of
        Inr p \<Rightarrow> ([AutoFromPretrained model_path dt], Inr p)
      | Inl e \<Rightarrow>
          (case sd_from_pretrained env model_path dt of
             Inr p \<Rightarrow> ([AutoFromPretrained model_path dt, SDFromPretrained model_path dt], Inr p)
           | Inl e2 \<Rightarrow>
               ([AutoFromPretrained model_path dt, SDFromPretrained model_path dt,
                 DiffusionFromPretrained model_path None dt],
                diffusion_from_pretrained env model_path None dt)))"

text \<open>
  \<^verbatim>\<open>load_model\<close> after the test for a resident engine. On the directory or remote path
  the global \<open>pipeline\<close> is assigned as soon as a constructor returns, and again after
  \<^verbatim>\<open>.to(device)\<close>; \<open>current_model\<close> is assigned last.
\<close>

definition load_model_fresh ::
  "env \<Rightarrow> string \<Rightarrow> server_state \<Rightarrow> event list \<times> (exn + pipe) \<times> server_state" where
  "load_model_fresh env model_path st =
     (case select_device env of (dev, dt) \<Rightarrow>
        if is_dduf_file env model_path then
          (case load_model_from_dduf env model_path dev dt of
             (tr, Inl e) \<Rightarrow> (tr, Inl e, st)
           | (tr, Inr p) \<Rightarrow>
               (tr, Inr p, st\<lparr>pipeline := Some p, current_model := Some model_path\<rparr>))
        else
          (case from_pretrained_chain env model_path dt of
             (tr, Inl e) \<Rightarrow> (tr, Inl e, st)
           | (tr, Inr p0) \<Rightarrow>
               (case pipe_to env p0 dev of
                  Inl e \<Rightarrow> (tr @ [PipeTo p0 dev], Inl e, st\<lparr>pipeline := Some p0\<rparr>)
                | Inr p \<Rightarrow>
                    if has_enable_attention_slicing env p then
                      (case enable_attention_slicing env p of
                         Some e \<Rightarrow>
                           (tr @ [PipeTo p0 dev, EnableAttentionSlicing p], Inl e,
                            st\<lparr>pipeline := Some p\<rparr>)
                       | None \<Rightarrow>
                           (tr @ [PipeTo p0 dev, EnableAttentionSlicing p], Inr p,
                            st\<lparr>pipeline := Some p, current_model := Some model_path\<rparr>))
                    else
                      (tr @ [PipeTo p0 dev], Inr p,
                       st\<lparr>pipeline := Some p, current_model := Some model_path\<rparr>))))"

definition load_model ::
  "env \<Rightarrow> string \<Rightarrow> server_state \<Rightarrow> event list \<times> (exn + pipe) \<times> server_state" where
  "load_model env model_path st =
     (case pipeline st of
        Some p \<Rightarrow>
          if current_model st = Some model_path then ([], Inr p, st)
          else load_model_fresh env model_path st
      | None \<Rightarrow> load_model_fresh env model_path st)"

section \<open>Generation\<close>

text \<open>The device of the generators: the same probe as in \<^verbatim>\<open>load_model\<close>.\<close>

definition generator_device :: "env \<Rightarrow> device" where
  "generator_device env =
     (if cuda_is_available env then Cuda
      else if mps_is_available env then Mps
      else Cpu)"

text \<open>
  The generator of image \<open>i\<close>: a new one seeded with \<open>seed + i\<close> when a seed was given
  (then \<open>generator\<close>, made before the loop, is not \<open>None\<close> either), none otherwise.
\<close>

definition current_generator ::
  "env \<Rightarrow> generator option \<Rightarrow> int option \<Rightarrow> nat \<Rightarrow> event list \<times> (exn + generator option)" where
  "current_generator env gen seed i =
     (case gen of
        None \<Rightarrow> ([], Inr None)
      | Some g0 \<Rightarrow>
          (case seed of
             None \<Rightarrow> ([], Inr None)
           | Some s \<Rightarrow>
               (case manual_seed env (generator_device env) (s + int i) of
                  Inl e \<Rightarrow> ([ManualSeed (generator_device env) (s + int i)], Inl e)
                | Inr g \<Rightarrow> ([ManualSeed (generator_device env) (s + int i)], Inr (Some g)))))"

text \<open>
  One turn of the loop \<^verbatim>\<open>for i in range(n)\<close>: the generator, the inference call, the
  first image of its result, the PNG bytes. \<open>mk\<close> builds the arguments of the inference
  call from the generator.
\<close>

definition generate_one ::
  "env \<Rightarrow> pipe \<Rightarrow> (generator option \<Rightarrow> call_args) \<Rightarrow> generator option \<Rightarrow> int option
     \<Rightarrow> nat \<Rightarrow> event list \<times> (exn + bytes)" where
  "generate_one env p mk gen seed i =
     (case current_generator env gen seed i of
        (tr, Inl e) \<Rightarrow> (tr, Inl e)
      | (tr, Inr cg) \<Rightarrow>
          (case run_pipeline env p (mk cg) of
             Inl e \<Rightarrow> (tr @ [PipelineCall p (mk cg)], Inl e)
           | Inr [] \<Rightarrow>
               (tr @ [PipelineCall p (mk cg)],
                Inl (Exn IndexError ''list index out of range'' None None))
           | Inr (img # _) \<Rightarrow>
               (case save_png env img of
                  Inl e \<Rightarrow> (tr @ [PipelineCall p (mk cg), SavePng img], Inl e)
                | Inr b \<Rightarrow> (tr @ [PipelineCall p (mk cg), SavePng img], Inr b))))"

text \<open>
  The loop, over the indices still to do; \<open>images\<close> is the list built so far. An
  exception leaves the loop and the function: the list is lost.
\<close>

fun generate_loop ::
  "env \<Rightarrow> pipe \<Rightarrow> (generator option \<Rightarrow> call_args) \<Rightarrow> generator option \<Rightarrow> int option
     \<Rightarrow> nat list \<Rightarrow> bytes list \<Rightarrow> event list \<times> (exn + bytes list)" where
  "generate_loop env p mk gen seed [] images = ([], Inr images)"
| "generate_loop env p mk gen seed (i # rest) images =
     (case generate_one env p mk gen seed i of
        (tr, Inl e) \<Rightarrow> (tr, Inl e)
      | (tr, Inr b) \<Rightarrow>
          (case generate_loop env p mk gen seed rest (images @ [b]) of
             (tr', r) \<Rightarrow> (tr @ tr', r)))"

text \<open>The keyword arguments of the inference call, for the generator of the turn.\<close>

definition pipeline_kwargs ::
  "string \<Rightarrow> int \<Rightarrow> int \<Rightarrow> string option \<Rightarrow> int \<Rightarrow> real \<Rightarrow> generator option \<Rightarrow> call_args" where
  "pipeline_kwargs prompt width height negative_prompt num_inference_steps guidance_scale cg =
     \<lparr>arg_prompt = prompt, arg_negative_prompt = negative_prompt,
      arg_width = width, arg_height = height,
      arg_num_inference_steps = num_inference_steps,
      arg_guidance_scale = guidance_scale, arg_generator = cg\<rparr>"

definition generate_images ::
  "env \<Rightarrow> server_state \<Rightarrow> string \<Rightarrow> int \<Rightarrow> int \<Rightarrow> int \<Rightarrow> string option \<Rightarrow> int \<Rightarrow> real
     \<Rightarrow> int option \<Rightarrow> event list \<times> (exn + bytes list)" where
  "generate_images env st prompt n width height negative_prompt num_inference_steps
       guidance_scale seed =
     (case pipeline st of
        None \<Rightarrow> ([], Inl (Exn RuntimeError ''No model loaded'' None None))
      | Some p \<Rightarrow>
          (let mk = pipeline_kwargs prompt width height negative_prompt num_inference_steps
                      guidance_scale
           in case seed of
                None \<Rightarrow> generate_loop env p mk None seed [0..<nat n] []
              | Some s \<Rightarrow>
                  (case manual_seed env (generator_device env) s of
                     Inl e \<Rightarrow> ([ManualSeed (generator_device env) s], Inl e)
                   | Inr g \<Rightarrow>
                       (case generate_loop env p mk (Some g) seed [0..<nat n] [] of
                          (tr, r) \<Rightarrow> (ManualSeed (generator_device env) s # tr, r)))))"

section \<open>The request handler\<close>

datatype response_format = Url | B64_json





text \<open>Truth of an optional string: neither \<^verbatim>\<open>None\<close> nor empty.\<close>

definition truthy :: "string option \<Rightarrow> bool" where
  "truthy v = (case v of None \<Rightarrow> False | Some s \<Rightarrow> s \<noteq> [])"

definition py_or :: "string option \<Rightarrow> string option \<Rightarrow> string option" where
  "py_or a b = (if truthy a then a else b)"






text \<open>The flag \<^verbatim>\<open>model_loaded\<close> of the \<^verbatim>\<open>/health\<close> endpoint.\<close>

definition health :: "server_state \<Rightarrow> bool" where
  "health st = (current_model st \<noteq> None)"

section \<open>Start-up\<close>

text \<open>The loop of \<^verbatim>\<open>main\<close> that follows \<^verbatim>\<open>__cause__\<close> to its end.\<close>

fun root_cause :: "exn \<Rightarrow> exn" where
  "root_cause (Exn k m None ctx) = Exn k m None ctx"
| "root_cause (Exn k m (Some c) ctx) = root_cause c"

definition error_msg :: "exn \<Rightarrow> string" where
  "error_msg e = (if root_cause e \<noteq> e then exn_str (root_cause e) else exn_str e)"

text \<open>
  What the process has done when \<^verbatim>\<open>main\<close> is over: the library calls, the text written
  to the standard error stream by \<^verbatim>\<open>main\<close> itself, the exit status (0 when \<^verbatim>\<open>main\<close>
  returns) and the globals.
\<close>

record run =
  run_calls :: "event list"
  run_stderr :: string
  run_status :: nat
  run_state :: server_state

definition startup_failure :: "event list \<Rightarrow> exn \<Rightarrow> server_state \<Rightarrow> run" where
  "startup_failure tr e st =
     \<lparr>run_calls = tr, run_stderr = ''DIFFUSERS_ERROR: '' @ error_msg e @ [CHR 0x0A],
      run_status = 1, run_state = st\<rparr>"

definition initial_state :: server_state where
  "initial_state = \<lparr>pipeline = None, current_model = None, served_model_name = None\<rparr>"

definition main :: "env \<Rightarrow> string \<Rightarrow> string option \<Rightarrow> run" where
  "main env model_path served_arg =
     (let st0 = initial_state\<lparr>served_model_name := py_or served_arg (Some model_path)\<rparr>
      in case load_model env model_path st0 of
           (tr, Inl e, st) \<Rightarrow> startup_failure tr e st
         | (tr, Inr p, st) \<Rightarrow>
             (case uvicorn_run env of
                Some e \<Rightarrow> startup_failure tr e st
              | None \<Rightarrow> \<lparr>run_calls = tr, run_stderr = [], run_status = 0, run_state = st\<rparr>))"

section \<open>Observations on a run\<close>

text \<open>
  The source of a model, as the branches of \<^verbatim>\<open>load_model\<close> tell it: the test
  \<^verbatim>\<open>is_dduf_file\<close> first, then \<^verbatim>\<open>os.path.isdir\<close>.
\<close>

datatype model_source = PackagedArchive string | LocalDirectory string | RemoteIdentifier string

definition classify :: "env \<Rightarrow> string \<Rightarrow> model_source" where
  "classify env model_path =
     (if is_dduf_file env model_path then PackagedArchive model_path
      else if isdir env model_path then LocalDirectory model_path
      else RemoteIdentifier model_path)"

text \<open>The calls that construct a pipeline, the seeds given to generators, the inference calls.\<close>

fun is_construction :: "event \<Rightarrow> bool" where
  "is_construction (AutoFromPretrained _ _) = True"
| "is_construction (SDFromPretrained _ _) = True"
| "is_construction (DiffusionFromPretrained _ _ _) = True"
| "is_construction _ = False"

fun seeds_of :: "event list \<Rightarrow> int list" where
  "seeds_of [] = []"
| "seeds_of (ManualSeed d s # tr) = s # seeds_of tr"
| "seeds_of (_ # tr) = seeds_of tr"

fun inference_args :: "event list \<Rightarrow> call_args list" where
  "inference_args [] = []"
| "inference_args (PipelineCall p a # tr) = a # inference_args tr"
| "inference_args (_ # tr) = inference_args tr"

text \<open>Whether a resident engine answers for \<open>model_path\<close>, the first test of \<^verbatim>\<open>load_model\<close>.\<close>

definition resident :: "server_state \<Rightarrow> string \<Rightarrow> bool" where
  "resident st model_path = (pipeline st \<noteq> None \<and> current_model st = Some model_path)"

text \<open>Whether a text fits on one line.\<close>

definition single_line :: "string \<Rightarrow> bool" where
  "single_line s = (CHR 0x0A \<notin> set s)"

section \<open>Sample environments\<close>

text \<open>
  A machine without accelerator that holds one packaged archive and one model
  directory; every library call succeeds where the model exists.
\<close>

definition demo_env :: env where
  "demo_env =
     \<lparr>cuda_is_available = False, mps_is_available = False,
      isfile = (\<lambda>p. p = ''/models/sd.dduf''),
      isdir = (\<lambda>p. p = ''/models/sd15''),
      auto_from_pretrained =
        (\<lambda>p dt. if p = ''/models/sd15'' then Inr (Pipe 1)
                 else Inl (Exn OtherError ''no pipeline class found'' None None)),
      sd_from_pretrained =
        (\<lambda>p dt. if p = ''org/sd-legacy'' then Inr (Pipe 2)
                 else Inl (Exn OtherError ''not a stable diffusion model'' None None)),
      diffusion_from_pretrained =
        (\<lambda>p f dt. if p = ''/models'' \<and> f = Some ''sd.dduf'' then Inr (Pipe 3)
                   else if p = ''org/custom'' \<and> f = None then Inr (Pipe 4)
                   else Inl (Exn OtherError ''model not found'' None None)),
      pipe_to = (\<lambda>p d. Inr p),
      has_enable_attention_slicing = (\<lambda>p. True),
      enable_attention_slicing = (\<lambda>p. None),
      manual_seed =
        (\<lambda>d s. if 0 \<le> s then Inr (Generator (nat s))
                else Inl (Exn RuntimeError ''seed out of range'' None None)),
      run_pipeline =
        (\<lambda>p a. case arg_generator a of
                  None \<Rightarrow> Inr [RawImage 0]
                | Some (Generator k) \<Rightarrow> Inr [RawImage (Suc k)]),
      save_png = (\<lambda>im. case im of RawImage k \<Rightarrow> Inr [137, 80, 78, 71, k]),
      b64encode = (\<lambda>b. ''iVBORw==''),
      time_now = 1700000000,
      int_max_str_digits = 4300,
      int_error_text = (\<lambda>s. ''invalid literal for int() with base 10''),
      http_exception_str = (\<lambda>c d. d),
      uvicorn_run = None\<rparr>"

text \<open>The same machine when moving a pipeline to the device runs out of memory.\<close>

definition no_memory_env :: env where
  "no_memory_env =
     demo_env\<lparr>pipe_to := (\<lambda>p d. Inl (Exn RuntimeError ''out of memory'' None None))\<rparr>"

text \<open>The same machine with a damaged archive.\<close>

definition broken_archive_env :: env where
  "broken_archive_env =
     demo_env\<lparr>diffusion_from_pretrained :=
                (\<lambda>p f dt. Inl (Exn OtherError ''boom'' None None))\<rparr>"

text \<open>The same machine when the last constructor explains itself on two lines.\<close>

definition two_line_env :: env where
  "two_line_env =
     demo_env\<lparr>diffusion_from_pretrained :=
                (\<lambda>p f dt. Inl (Exn OtherError
                   (''not a valid model identifier'' @ [CHR 0x0A] @ ''log in first'')
                   None None))\<rparr>"

definition demo_state :: server_state where
  "demo_state =
     \<lparr>pipeline = Some (Pipe 1), current_model = Some ''/models/sd15'',
      served_model_name = Some ''sd15''\<rparr>"


text \<open>The decimal numeral of a natural number, as \<^verbatim>\<open>str\<close> writes it.\<close>

fun dec :: "nat \<Rightarrow> string" where
  "dec n = (if n < 10 then [char_of (48 + n)]
            else dec (n div 10) @ [char_of (48 + n mod 10)])"

declare dec.simps [simp del]

section \<open>Source classification\<close>

lemma endswith_iff: "endswith s suf \<longleftrightarrow> (\<exists>pre. s = pre @ suf)"
proof
  assume "endswith s suf"
  then have "s = take (length s - length suf) s @ suf"
    unfolding endswith_def by (metis append_take_drop_id)
  then show "\<exists>pre. s = pre @ suf" ..
next
  assume "\<exists>pre. s = pre @ suf"
  then show "endswith s suf" unfolding endswith_def by auto
qed

lemma path_split: "p = rev (dropWhile (\<lambda>c. c \<noteq> CHR ''/'') (rev p)) @ basename p"
  unfolding basename_def by (metis rev_append rev_rev_ident takeWhile_dropWhile_id)

lemma lower_slash_free:
  assumes "CHR ''/'' \<notin> set (lower s)" shows "CHR ''/'' \<notin> set s"
proof
  assume "CHR ''/'' \<in> set s"
  then have "lower_char CHR ''/'' \<in> set (lower s)" by (simp add: lower_def)
  moreover have "lower_char CHR ''/'' = CHR ''/''" by code_simp
  ultimately show False using assms by simp
qed

lemma basename_suffix_free:
  assumes "p = pre @ suf" "CHR ''/'' \<notin> set suf"
  shows "\<exists>pre'. basename p = pre' @ suf"
proof -
  have "rev p = rev suf @ rev pre" using assms by simp
  moreover have "\<And>c. c \<in> set (rev suf) \<Longrightarrow> c \<noteq> CHR ''/''" using assms by auto
  ultimately have "takeWhile (\<lambda>c. c \<noteq> CHR ''/'') (rev p)
      = rev suf @ takeWhile (\<lambda>c. c \<noteq> CHR ''/'') (rev pre)"
    using takeWhile_append2 [of "rev suf" "\<lambda>c. c \<noteq> CHR ''/''" "rev pre"] by simp
  then show ?thesis unfolding basename_def by simp
qed

lemma lower_append_split:
  assumes "lower s = a @ b"
  shows "\<exists>s1 s2. s = s1 @ s2 \<and> lower s1 = a \<and> lower s2 = b"
proof -
  have "s = take (length a) s @ drop (length a) s" by simp
  moreover have "lower (take (length a) s) = a"
    using assms unfolding lower_def by (metis append_eq_conv_conj take_map)
  moreover have "lower (drop (length a) s) = b"
    using assms unfolding lower_def by (metis append_eq_conv_conj drop_map)
  ultimately show ?thesis by blast
qed

lemma dduf_basename:
  "endswith (lower (basename p)) ''.dduf'' \<longleftrightarrow> endswith (lower p) ''.dduf''"
proof
  assume "endswith (lower (basename p)) ''.dduf''"
  then obtain pre where "lower (basename p) = pre @ ''.dduf''" unfolding endswith_iff by blast
  moreover obtain h where "p = h @ basename p" using path_split by blast
  ultimately have "lower p = (lower h @ pre) @ ''.dduf''"
    unfolding lower_def by (metis append.assoc map_append)
  then show "endswith (lower p) ''.dduf''" unfolding endswith_iff by blast
next
  assume "endswith (lower p) ''.dduf''"
  then obtain pre where "lower p = pre @ ''.dduf''" unfolding endswith_iff by blast
  then obtain s1 s2 where s: "p = s1 @ s2" "lower s1 = pre" "lower s2 = ''.dduf''"
    using lower_append_split by blast
  have "CHR ''/'' \<notin> set (lower s2)" using s(3) by simp
  then have "CHR ''/'' \<notin> set s2" by (rule lower_slash_free)
  then obtain pre' where "basename p = pre' @ s2" using basename_suffix_free s(1) by blast
  then have "lower (basename p) = lower pre' @ ''.dduf''" using s(3) by (simp add: lower_def)
  then show "endswith (lower (basename p)) ''.dduf''" unfolding endswith_iff by blast
qed

lemma load_model_fresh_remote:
  assumes "\<not> is_dduf_file env path"
  shows "\<exists>tr. fst (load_model_fresh env path st)
           = AutoFromPretrained path (snd (select_device env)) # tr"
  using assms
  by (auto simp: load_model_fresh_def from_pretrained_chain_def
           split: prod.splits sum.splits option.splits)

text \<open>
  Claim C5. The source of a model depends on the path and on the two filesystem tests
  only. It is a packaged archive exactly when the file name ends in \<^verbatim>\<open>.dduf\<close>, in any
  mix of cases, and the path is a regular file. A path that is neither a file nor a
  directory is a remote identifier, whatever its extension, and loading it starts with
  the first strategy of the directory and remote path.
\<close>

theorem source_classification:
  "((classify env path = PackagedArchive path)
      = (endswith (lower (basename path)) ''.dduf'' \<and> isfile env path))
   \<and> (\<not> isfile env path \<and> \<not> isdir env path
        \<longrightarrow> classify env path = RemoteIdentifier path
            \<and> (\<exists>tr. fst (load_model_fresh env path st)
                  = AutoFromPretrained path (snd (select_device env)) # tr))
   \<and> (isfile env' = isfile env \<and> isdir env' = isdir env
        \<longrightarrow> classify env' path = classify env path)"
proof -
  have "\<not> isfile env path \<Longrightarrow> \<not> is_dduf_file env path"
    by (simp add: is_dduf_file_def)
  then show ?thesis
    using load_model_fresh_remote [of env path st]
    by (simp add: classify_def is_dduf_file_def dduf_basename)
qed

theorem source_classification_witness:
  "\<not> isfile demo_env ''/models/gone.dduf'' \<and> \<not> isdir demo_env ''/models/gone.dduf''
   \<and> classify demo_env ''/models/gone.dduf'' = RemoteIdentifier ''/models/gone.dduf''
   \<and> endswith (lower (basename ''/models/sd.dduf'')) ''.dduf''
   \<and> isfile demo_env ''/models/sd.dduf''
   \<and> classify demo_env ''/models/sd.dduf'' = PackagedArchive ''/models/sd.dduf''
   \<and> isfile no_memory_env = isfile demo_env \<and> isdir no_memory_env = isdir demo_env
   \<and> classify no_memory_env ''/models/sd15'' = classify demo_env ''/models/sd15''"
proof -
  have gone: "\<not> isfile demo_env ''/models/gone.dduf''" "\<not> isdir demo_env ''/models/gone.dduf''"
    by (simp_all add: demo_env_def)
  have ext: "endswith (lower (basename ''/models/sd.dduf'')) ''.dduf''"
    by code_simp
  have reg: "isfile demo_env ''/models/sd.dduf''"
    by (simp add: demo_env_def)
  have same: "isfile no_memory_env = isfile demo_env" "isdir no_memory_env = isdir demo_env"
    by (simp_all add: no_memory_env_def)
  show ?thesis
    using gone ext reg same
      source_classification [of demo_env "''/models/gone.dduf''" initial_state demo_env]
      source_classification [of demo_env "''/models/sd.dduf''" initial_state demo_env]
      source_classification [of demo_env "''/models/sd15''" initial_state no_memory_env]
    by simp
qed

section \<open>Loading: the resident engine\<close>


lemma load_model_not_resident:
  "\<not> resident st path \<Longrightarrow> load_model env path st = load_model_fresh env path st"
  by (auto simp: load_model_def resident_def split: option.splits)






section \<open>Loading a packaged archive\<close>

lemma rstrip_split: "\<exists>seps. s = rstrip c s @ seps \<and> set seps \<subseteq> {c}"
proof -
  have "rev s = takeWhile (\<lambda>x. x = c) (rev s) @ dropWhile (\<lambda>x. x = c) (rev s)" by simp
  then have "s = rev (dropWhile (\<lambda>x. x = c) (rev s)) @ rev (takeWhile (\<lambda>x. x = c) (rev s))"
    by (metis rev_append rev_rev_ident)
  moreover have "set (rev (takeWhile (\<lambda>x. x = c) (rev s))) \<subseteq> {c}"
    using set_takeWhileD by fastforce
  ultimately show ?thesis unfolding rstrip_def by blast
qed

lemma basename_no_slash: "CHR ''/'' \<notin> set (basename p)"
  unfolding basename_def using set_takeWhileD by fastforce

lemma dirname_basename:
  "\<exists>seps. p = dirname p @ seps @ basename p \<and> set seps \<subseteq> {CHR ''/''}"
proof -
  define h where "h = rev (dropWhile (\<lambda>c. c \<noteq> CHR ''/'') (rev p))"
  have p: "p = h @ basename p" unfolding h_def by (rule path_split)
  show ?thesis
  proof (cases "h \<noteq> [] \<and> h \<noteq> replicate (length h) CHR ''/''")
    case True
    then have d: "dirname p = rstrip CHR ''/'' h" unfolding dirname_def h_def by (simp add: Let_def)
    obtain seps where "h = rstrip CHR ''/'' h @ seps" "set seps \<subseteq> {CHR ''/''}"
      using rstrip_split by blast
    then show ?thesis using p d by (metis append.assoc)
  next
    case False
    then have "dirname p = h" unfolding dirname_def h_def by (auto simp: Let_def)
    then have "p = dirname p @ [] @ basename p" using p by simp
    then show ?thesis by (metis empty_set empty_subsetI)
  qed
qed

lemma dduf_calls:
  "\<exists>rest. fst (load_model_from_dduf env path dev dt)
      = DiffusionFromPretrained (dirname path) (Some (basename path)) dt # rest
    \<and> filter is_construction rest = []"
  by (auto simp: load_model_from_dduf_def Let_def split: sum.splits)

lemma dduf_failure:
  assumes "snd (load_model_from_dduf env path dev dt) = Inl e"
  shows "\<exists>e0. e = Exn RuntimeError (''Failed to load DDUF file: '' @ exn_str e0) None (Some e0)
           \<and> (diffusion_from_pretrained env (dirname path) (Some (basename path)) dt = Inl e0
              \<or> (\<exists>p0. diffusion_from_pretrained env (dirname path) (Some (basename path)) dt
                        = Inr p0 \<and> pipe_to env p0 dev = Inl e0))"
  using assms
  by (auto simp: load_model_from_dduf_def dduf_error_def Let_def split: sum.splits)

lemma load_model_fresh_dduf:
  assumes "is_dduf_file env path"
  shows "fst (load_model_fresh env path st)
           = fst (load_model_from_dduf env path (fst (select_device env)) (snd (select_device env)))"
    and "fst (snd (load_model_fresh env path st))
           = snd (load_model_from_dduf env path (fst (select_device env)) (snd (select_device env)))"
    and "fst (snd (load_model_fresh env path st)) = Inl e
           \<Longrightarrow> snd (snd (load_model_fresh env path st)) = st"
  using assms
  by (auto simp: load_model_fresh_def split: prod.splits sum.splits)

lemma load_broken:
  "load_model broken_archive_env ''/models/sd.dduf'' initial_state =
     ([DiffusionFromPretrained ''/models'' (Some ''sd.dduf'') Float32],
      Inl (Exn RuntimeError ''Failed to load DDUF file: boom'' None
             (Some (Exn OtherError ''boom'' None None))),
      initial_state)"
  by code_simp

lemma dduf_demo:
  "is_dduf_file broken_archive_env ''/models/sd.dduf''"
  by code_simp

lemma load_model_fresh_dduf_cases:
  assumes "is_dduf_file env path"
  shows "load_model_fresh env path st =
     (case diffusion_from_pretrained env (dirname path) (Some (basename path))
             (snd (select_device env)) of
        Inl e0 \<Rightarrow>
          ([DiffusionFromPretrained (dirname path) (Some (basename path))
              (snd (select_device env))],
           Inl (Exn RuntimeError (''Failed to load DDUF file: '' @ exn_str e0) None (Some e0)),
           st)
      | Inr p0 \<Rightarrow>
          (case pipe_to env p0 (fst (select_device env)) of
             Inl e0 \<Rightarrow>
               ([DiffusionFromPretrained (dirname path) (Some (basename path))
                   (snd (select_device env)),
                 PipeTo p0 (fst (select_device env))],
                Inl (Exn RuntimeError (''Failed to load DDUF file: '' @ exn_str e0) None
                       (Some e0)),
                st)
           | Inr p1 \<Rightarrow>
               ([DiffusionFromPretrained (dirname path) (Some (basename path))
                   (snd (select_device env)),
                 PipeTo p0 (fst (select_device env))],
                Inr p1,
                st\<lparr>pipeline := Some p1, current_model := Some path\<rparr>)))"
  using assms
  by (auto simp: load_model_fresh_def load_model_from_dduf_def dduf_error_def Let_def
           split: prod.splits sum.splits)

text \<open>
  Claim C3. For a path that \<^verbatim>\<open>is_dduf_file\<close> accepts and that is not already resident,
  \<^verbatim>\<open>load_model\<close> splits the path into \<^verbatim>\<open>dirname\<close> and \<^verbatim>\<open>basename\<close> (the path is the
  directory, some slashes and the file name, which holds no slash), calls the generic
  constructor with these two and calls no other constructor. When the load fails, the
  globals are as before and the exception is a \<^verbatim>\<open>RuntimeError\<close> whose text ends in the
  text of the exception the library raised and whose \<^verbatim>\<open>__context__\<close> is that exception.
  And the load does fail whenever the constructor raises, after that one call, and
  whenever the move to the device raises, after these two calls; only when both return
  does the load return, with the moved pipeline in the global and the path recorded.
\<close>

theorem dduf_load_is_fatal:
  assumes "is_dduf_file env path" and "\<not> resident st path"
  shows "(\<exists>seps. path = dirname path @ seps @ basename path \<and> set seps \<subseteq> {CHR ''/''})
    \<and> CHR ''/'' \<notin> set (basename path)
    \<and> (\<exists>rest. fst (load_model env path st)
           = DiffusionFromPretrained (dirname path) (Some (basename path))
               (snd (select_device env)) # rest
         \<and> filter is_construction rest = [])
    \<and> (\<forall>e. fst (snd (load_model env path st)) = Inl e \<longrightarrow>
          snd (snd (load_model env path st)) = st
          \<and> (\<exists>e0. e = Exn RuntimeError (''Failed to load DDUF file: '' @ exn_str e0) None (Some e0)
                \<and> (diffusion_from_pretrained env (dirname path) (Some (basename path))
                      (snd (select_device env)) = Inl e0
                   \<or> (\<exists>p0. diffusion_from_pretrained env (dirname path) (Some (basename path))
                             (snd (select_device env)) = Inr p0
                          \<and> pipe_to env p0 (fst (select_device env)) = Inl e0))))
    \<and> (\<forall>e0. diffusion_from_pretrained env (dirname path) (Some (basename path))
               (snd (select_device env)) = Inl e0
          \<longrightarrow> load_model env path st
               = ([DiffusionFromPretrained (dirname path) (Some (basename path))
                     (snd (select_device env))],
                  Inl (Exn RuntimeError (''Failed to load DDUF file: '' @ exn_str e0) None
                         (Some e0)),
                  st))
    \<and> (\<forall>p0 e0. diffusion_from_pretrained env (dirname path) (Some (basename path))
                  (snd (select_device env)) = Inr p0
                \<and> pipe_to env p0 (fst (select_device env)) = Inl e0
          \<longrightarrow> load_model env path st
               = ([DiffusionFromPretrained (dirname path) (Some (basename path))
                     (snd (select_device env)),
                   PipeTo p0 (fst (select_device env))],
                  Inl (Exn RuntimeError (''Failed to load DDUF file: '' @ exn_str e0) None
                         (Some e0)),
                  st))
    \<and> (\<forall>p0 p1. diffusion_from_pretrained env (dirname path) (Some (basename path))
                  (snd (select_device env)) = Inr p0
                \<and> pipe_to env p0 (fst (select_device env)) = Inr p1
          \<longrightarrow> load_model env path st
               = ([DiffusionFromPretrained (dirname path) (Some (basename path))
                     (snd (select_device env)),
                   PipeTo p0 (fst (select_device env))],
                  Inr p1,
                  st\<lparr>pipeline := Some p1, current_model := Some path\<rparr>))"
proof -
  have l: "load_model env path st = load_model_fresh env path st"
    using assms(2) by (rule load_model_not_resident)
  have old: "(\<exists>seps. path = dirname path @ seps @ basename path \<and> set seps \<subseteq> {CHR ''/''})
    \<and> CHR ''/'' \<notin> set (basename path)
    \<and> (\<exists>rest. fst (load_model env path st)
           = DiffusionFromPretrained (dirname path) (Some (basename path))
               (snd (select_device env)) # rest
         \<and> filter is_construction rest = [])
    \<and> (\<forall>e. fst (snd (load_model env path st)) = Inl e \<longrightarrow>
          snd (snd (load_model env path st)) = st
          \<and> (\<exists>e0. e = Exn RuntimeError (''Failed to load DDUF file: '' @ exn_str e0) None (Some e0)
                \<and> (diffusion_from_pretrained env (dirname path) (Some (basename path))
                      (snd (select_device env)) = Inl e0
                   \<or> (\<exists>p0. diffusion_from_pretrained env (dirname path) (Some (basename path))
                             (snd (select_device env)) = Inr p0
                          \<and> pipe_to env p0 (fst (select_device env)) = Inl e0))))"
    unfolding l
    using dirname_basename [of path] basename_no_slash [of path]
      dduf_calls [of env path "fst (select_device env)" "snd (select_device env)"]
      dduf_failure [of env path "fst (select_device env)" "snd (select_device env)"]
      load_model_fresh_dduf [OF assms(1), of st]
    by simp
  have new: "(\<forall>e0. diffusion_from_pretrained env (dirname path) (Some (basename path))
               (snd (select_device env)) = Inl e0
          \<longrightarrow> load_model env path st
               = ([DiffusionFromPretrained (dirname path) (Some (basename path))
                     (snd (select_device env))],
                  Inl (Exn RuntimeError (''Failed to load DDUF file: '' @ exn_str e0) None
                         (Some e0)),
                  st))
    \<and> (\<forall>p0 e0. diffusion_from_pretrained env (dirname path) (Some (basename path))
                  (snd (select_device env)) = Inr p0
                \<and> pipe_to env p0 (fst (select_device env)) = Inl e0
          \<longrightarrow> load_model env path st
               = ([DiffusionFromPretrained (dirname path) (Some (basename path))
                     (snd (select_device env)),
                   PipeTo p0 (fst (select_device env))],
                  Inl (Exn RuntimeError (''Failed to load DDUF file: '' @ exn_str e0) None
                         (Some e0)),
                  st))
    \<and> (\<forall>p0 p1. diffusion_from_pretrained env (dirname path) (Some (basename path))
                  (snd (select_device env)) = Inr p0
                \<and> pipe_to env p0 (fst (select_device env)) = Inr p1
          \<longrightarrow> load_model env path st
               = ([DiffusionFromPretrained (dirname path) (Some (basename path))
                     (snd (select_device env)),
                   PipeTo p0 (fst (select_device env))],
                  Inr p1,
                  st\<lparr>pipeline := Some p1, current_model := Some path\<rparr>))"
    unfolding l load_model_fresh_dduf_cases [OF assms(1)] by simp
  from old new show ?thesis by blast
qed

lemma broken_constructor:
  "diffusion_from_pretrained broken_archive_env (dirname ''/models/sd.dduf'')
      (Some (basename ''/models/sd.dduf'')) (snd (select_device broken_archive_env))
     = Inl (Exn OtherError ''boom'' None None)"
  by code_simp

lemma no_memory_dduf:
  "is_dduf_file no_memory_env ''/models/sd.dduf''"
  "diffusion_from_pretrained no_memory_env (dirname ''/models/sd.dduf'')
      (Some (basename ''/models/sd.dduf'')) (snd (select_device no_memory_env)) = Inr (Pipe 3)"
  "pipe_to no_memory_env (Pipe 3) (fst (select_device no_memory_env))
     = Inl (Exn RuntimeError ''out of memory'' None None)"
  "dirname ''/models/sd.dduf'' = ''/models''" "basename ''/models/sd.dduf'' = ''sd.dduf''"
  "select_device no_memory_env = (Cpu, Float32)"
  "select_device broken_archive_env = (Cpu, Float32)"
  by code_simp+

theorem dduf_load_is_fatal_witness:
  "is_dduf_file broken_archive_env ''/models/sd.dduf''
   \<and> \<not> resident initial_state ''/models/sd.dduf''
   \<and> load_model broken_archive_env ''/models/sd.dduf'' initial_state
       = ([DiffusionFromPretrained ''/models'' (Some ''sd.dduf'') Float32],
          Inl (Exn RuntimeError ''Failed to load DDUF file: boom'' None
                 (Some (Exn OtherError ''boom'' None None))),
          initial_state)
   \<and> is_dduf_file no_memory_env ''/models/sd.dduf''
   \<and> load_model no_memory_env ''/models/sd.dduf'' initial_state
       = ([DiffusionFromPretrained ''/models'' (Some ''sd.dduf'') Float32, PipeTo (Pipe 3) Cpu],
          Inl (Exn RuntimeError ''Failed to load DDUF file: out of memory'' None
                 (Some (Exn RuntimeError ''out of memory'' None None))),
          initial_state)"
proof -
  have b: "\<not> resident initial_state ''/models/sd.dduf''"
    by (simp add: resident_def initial_state_def)
  have one: "load_model broken_archive_env ''/models/sd.dduf'' initial_state
       = ([DiffusionFromPretrained ''/models'' (Some ''sd.dduf'') Float32],
          Inl (Exn RuntimeError ''Failed to load DDUF file: boom'' None
                 (Some (Exn OtherError ''boom'' None None))),
          initial_state)"
    using dduf_load_is_fatal [OF dduf_demo b, THEN conjunct2, THEN conjunct2, THEN conjunct2,
        THEN conjunct2, THEN conjunct1, rule_format, OF broken_constructor]
    by (simp add: no_memory_dduf)
  have two: "load_model no_memory_env ''/models/sd.dduf'' initial_state
       = ([DiffusionFromPretrained ''/models'' (Some ''sd.dduf'') Float32, PipeTo (Pipe 3) Cpu],
          Inl (Exn RuntimeError ''Failed to load DDUF file: out of memory'' None
                 (Some (Exn RuntimeError ''out of memory'' None None))),
          initial_state)"
    using dduf_load_is_fatal [OF no_memory_dduf(1) b, THEN conjunct2, THEN conjunct2,
        THEN conjunct2, THEN conjunct2, THEN conjunct2, THEN conjunct1, rule_format,
        OF conjI [OF no_memory_dduf(2) no_memory_dduf(3)]]
    by (simp add: no_memory_dduf)
  show ?thesis using dduf_demo b one two no_memory_dduf(1) by blast
qed

section \<open>Loading a directory or a remote model\<close>

lemma chain_shape:
  "(case auto_from_pretrained env path dt of
      Inr p \<Rightarrow> from_pretrained_chain env path dt = ([AutoFromPretrained path dt], Inr p)
    | Inl e1 \<Rightarrow>
        (case sd_from_pretrained env path dt of
           Inr p \<Rightarrow> from_pretrained_chain env path dt
                      = ([AutoFromPretrained path dt, SDFromPretrained path dt], Inr p)
         | Inl e2 \<Rightarrow> from_pretrained_chain env path dt
                      = ([AutoFromPretrained path dt, SDFromPretrained path dt,
                          DiffusionFromPretrained path None dt],
                         diffusion_from_pretrained env path None dt)))"
  by (simp add: from_pretrained_chain_def split: sum.splits)

lemma chain_failure:
  "snd (from_pretrained_chain env path dt) = Inl e \<longleftrightarrow>
     (\<exists>e1 e2. auto_from_pretrained env path dt = Inl e1
        \<and> sd_from_pretrained env path dt = Inl e2
        \<and> diffusion_from_pretrained env path None dt = Inl e)"
  by (auto simp: from_pretrained_chain_def split: sum.splits)

lemma load_model_fresh_chain:
  assumes "\<not> is_dduf_file env path"
  shows "\<exists>rest. fst (load_model_fresh env path st)
            = fst (from_pretrained_chain env path (snd (select_device env))) @ rest
          \<and> filter is_construction rest = []
          \<and> (\<forall>e. snd (from_pretrained_chain env path (snd (select_device env))) = Inl e
                \<longrightarrow> rest = [] \<and> fst (snd (load_model_fresh env path st)) = Inl e
                    \<and> snd (snd (load_model_fresh env path st)) = st)"
  using assms
  by (auto simp: load_model_fresh_def split: prod.splits sum.splits option.splits)

lemma load_model_fresh_failure:
  assumes "\<not> is_dduf_file env path"
    and "fst (snd (load_model_fresh env path st)) = Inl e"
  shows "snd (from_pretrained_chain env path (snd (select_device env))) = Inl e
     \<or> (\<exists>p0. snd (from_pretrained_chain env path (snd (select_device env))) = Inr p0
          \<and> (pipe_to env p0 (fst (select_device env)) = Inl e
             \<or> (\<exists>p1. pipe_to env p0 (fst (select_device env)) = Inr p1
                   \<and> has_enable_attention_slicing env p1
                   \<and> enable_attention_slicing env p1 = Some e)))"
  using assms
  by (auto simp: load_model_fresh_def split: prod.splits sum.splits option.splits if_splits)

text \<open>
  Claim C2, amended. For a path that is not a packaged archive and not already resident,
  \<^verbatim>\<open>load_model\<close> calls the auto-detecting constructor first, the Stable Diffusion
  constructor only when the first raised, the generic constructor only when the second
  raised too, and no constructor after one has returned. When all three raise, the load
  fails with the exception of the third. A failed load is either that case, or a
  constructor returned and moving the pipeline to the device or enabling attention
  slicing raised.
\<close>

theorem construction_fallback_order:
  assumes "\<not> is_dduf_file env path" and "\<not> resident st path"
  shows
   "(\<exists>rest. filter is_construction rest = []
       \<and> (case auto_from_pretrained env path (snd (select_device env)) of
            Inr p \<Rightarrow> fst (load_model env path st)
                       = AutoFromPretrained path (snd (select_device env)) # rest
          | Inl e1 \<Rightarrow>
              (case sd_from_pretrained env path (snd (select_device env)) of
                 Inr p \<Rightarrow> fst (load_model env path st)
                            = AutoFromPretrained path (snd (select_device env))
                              # SDFromPretrained path (snd (select_device env)) # rest
               | Inl e2 \<Rightarrow> fst (load_model env path st)
                            = AutoFromPretrained path (snd (select_device env))
                              # SDFromPretrained path (snd (select_device env))
                              # DiffusionFromPretrained path None (snd (select_device env))
                              # rest)))
    \<and> (\<forall>e1 e2 e3. auto_from_pretrained env path (snd (select_device env)) = Inl e1
          \<and> sd_from_pretrained env path (snd (select_device env)) = Inl e2
          \<and> diffusion_from_pretrained env path None (snd (select_device env)) = Inl e3
          \<longrightarrow> fst (snd (load_model env path st)) = Inl e3)
    \<and> (\<forall>e. fst (snd (load_model env path st)) = Inl e \<longrightarrow>
          (\<exists>e1 e2. auto_from_pretrained env path (snd (select_device env)) = Inl e1
             \<and> sd_from_pretrained env path (snd (select_device env)) = Inl e2
             \<and> diffusion_from_pretrained env path None (snd (select_device env)) = Inl e)
          \<or> (\<exists>p0. snd (from_pretrained_chain env path (snd (select_device env))) = Inr p0
               \<and> (pipe_to env p0 (fst (select_device env)) = Inl e
                  \<or> (\<exists>p1. pipe_to env p0 (fst (select_device env)) = Inr p1
                        \<and> has_enable_attention_slicing env p1
                        \<and> enable_attention_slicing env p1 = Some e))))"
proof -
  let ?dt = "snd (select_device env)"
  have l: "load_model env path st = load_model_fresh env path st"
    using assms(2) by (rule load_model_not_resident)
  obtain rest where r: "fst (load_model_fresh env path st)
            = fst (from_pretrained_chain env path ?dt) @ rest"
      "filter is_construction rest = []"
      "\<forall>e. snd (from_pretrained_chain env path ?dt) = Inl e
                \<longrightarrow> rest = [] \<and> fst (snd (load_model_fresh env path st)) = Inl e
                    \<and> snd (snd (load_model_fresh env path st)) = st"
    using load_model_fresh_chain [OF assms(1), of st] by blast
  have one: "\<exists>rest. filter is_construction rest = []
       \<and> (case auto_from_pretrained env path ?dt of
            Inr p \<Rightarrow> fst (load_model env path st) = AutoFromPretrained path ?dt # rest
          | Inl e1 \<Rightarrow>
              (case sd_from_pretrained env path ?dt of
                 Inr p \<Rightarrow> fst (load_model env path st)
                            = AutoFromPretrained path ?dt # SDFromPretrained path ?dt # rest
               | Inl e2 \<Rightarrow> fst (load_model env path st)
                            = AutoFromPretrained path ?dt # SDFromPretrained path ?dt
                              # DiffusionFromPretrained path None ?dt # rest))"
    using r(1,2) chain_shape [of env path ?dt] unfolding l
    by (intro exI [of _ rest]) (auto split: sum.splits)
  have two: "\<forall>e1 e2 e3. auto_from_pretrained env path ?dt = Inl e1
          \<and> sd_from_pretrained env path ?dt = Inl e2
          \<and> diffusion_from_pretrained env path None ?dt = Inl e3
          \<longrightarrow> fst (snd (load_model env path st)) = Inl e3"
    using r(3) chain_failure [of env path ?dt] unfolding l by blast
  have three: "\<forall>e. fst (snd (load_model env path st)) = Inl e \<longrightarrow>
          (\<exists>e1 e2. auto_from_pretrained env path ?dt = Inl e1
             \<and> sd_from_pretrained env path ?dt = Inl e2
             \<and> diffusion_from_pretrained env path None ?dt = Inl e)
          \<or> (\<exists>p0. snd (from_pretrained_chain env path ?dt) = Inr p0
               \<and> (pipe_to env p0 (fst (select_device env)) = Inl e
                  \<or> (\<exists>p1. pipe_to env p0 (fst (select_device env)) = Inr p1
                        \<and> has_enable_attention_slicing env p1
                        \<and> enable_attention_slicing env p1 = Some e)))"
    using load_model_fresh_failure [OF assms(1), of st] chain_failure [of env path ?dt]
    unfolding l by blast
  from one two three show ?thesis by blast
qed
lemma load_legacy:
  "load_model demo_env ''org/sd-legacy'' initial_state =
     ([AutoFromPretrained ''org/sd-legacy'' Float32, SDFromPretrained ''org/sd-legacy'' Float32,
       PipeTo (Pipe 2) Cpu, EnableAttentionSlicing (Pipe 2)],
      Inr (Pipe 2),
      \<lparr>pipeline = Some (Pipe 2), current_model = Some ''org/sd-legacy'',
        served_model_name = None\<rparr>)"
  by code_simp

lemma load_unknown:
  "load_model demo_env ''org/none'' initial_state =
     ([AutoFromPretrained ''org/none'' Float32, SDFromPretrained ''org/none'' Float32,
       DiffusionFromPretrained ''org/none'' None Float32],
      Inl (Exn OtherError ''model not found'' None None),
      initial_state)"
  by code_simp

lemma demo_not_dduf:
  "\<not> is_dduf_file demo_env ''org/sd-legacy''" "\<not> is_dduf_file demo_env ''org/none''"
  by code_simp+

lemma initial_not_resident: "\<not> resident initial_state path"
  by (simp add: resident_def initial_state_def)

lemma demo_device: "select_device demo_env = (Cpu, Float32)"
  by code_simp

theorem construction_fallback_order_witness:
  "\<not> is_dduf_file demo_env ''org/sd-legacy'' \<and> \<not> resident initial_state ''org/sd-legacy''
   \<and> auto_from_pretrained demo_env ''org/sd-legacy'' Float32
       = Inl (Exn OtherError ''no pipeline class found'' None None)
   \<and> sd_from_pretrained demo_env ''org/sd-legacy'' Float32 = Inr (Pipe 2)
   \<and> (\<exists>rest. fst (load_model demo_env ''org/sd-legacy'' initial_state)
         = AutoFromPretrained ''org/sd-legacy'' Float32
           # SDFromPretrained ''org/sd-legacy'' Float32 # rest
        \<and> filter is_construction rest = [])"
proof -
  have a: "auto_from_pretrained demo_env ''org/sd-legacy'' Float32
       = Inl (Exn OtherError ''no pipeline class found'' None None)"
    by (simp add: demo_env_def)
  have s: "sd_from_pretrained demo_env ''org/sd-legacy'' Float32 = Inr (Pipe 2)"
    by (simp add: demo_env_def)
  show ?thesis
    using construction_fallback_order [OF demo_not_dduf(1) initial_not_resident]
    by (simp add: a s demo_device demo_not_dduf initial_not_resident) blast
qed

text \<open>
  Claim C2 as stated fails: on a machine where the first constructor returns and the
  move to the device raises, the load fails although no constructor raised.
\<close>

theorem load_failure_counterexample:
  "\<not> is_dduf_file no_memory_env ''/models/sd15''
   \<and> \<not> resident initial_state ''/models/sd15''
   \<and> auto_from_pretrained no_memory_env ''/models/sd15'' Float32 = Inr (Pipe 1)
   \<and> load_model no_memory_env ''/models/sd15'' initial_state
       = ([AutoFromPretrained ''/models/sd15'' Float32, PipeTo (Pipe 1) Cpu],
          Inl (Exn RuntimeError ''out of memory'' None None),
          initial_state\<lparr>pipeline := Some (Pipe 1)\<rparr>)"
  by code_simp

section \<open>Failed loads and the globals\<close>

lemma load_model_fresh_failed_state:
  assumes "fst (snd (load_model_fresh env path st)) = Inl e"
  shows "current_model (snd (snd (load_model_fresh env path st))) = current_model st"
    and "served_model_name (snd (snd (load_model_fresh env path st))) = served_model_name st"
    and "is_dduf_file env path
           \<or> (\<exists>e'. snd (from_pretrained_chain env path (snd (select_device env))) = Inl e')
         \<Longrightarrow> snd (snd (load_model_fresh env path st)) = st"
  using assms
  by (auto simp: load_model_fresh_def split: prod.splits sum.splits option.splits if_splits)

lemma load_model_failed_fresh:
  assumes "fst (snd (load_model env path st)) = Inl e"
  shows "load_model env path st = load_model_fresh env path st"
  using assms by (auto simp: load_model_def split: option.splits if_splits)

lemma generate_images_not_ready:
  "pipeline st = None \<Longrightarrow>
   generate_images env st prompt n width height negative_prompt steps guidance seed
     = ([], Inl (Exn RuntimeError ''No model loaded'' None None))"
  by (simp add: generate_images_def)

text \<open>
  What a failed load does keep: the recorded model path and the served name always, and
  the engine handle too when the load failed in construction (the packaged archive could
  not be loaded, or all three constructors raised); at start-up no engine is resident
  then, and \<^verbatim>\<open>generate_images\<close> fails with "No model loaded" without calling the
  libraries.
\<close>

lemma failed_load_keeps_state:
  assumes "fst (snd (load_model env path st)) = Inl e"
  shows "current_model (snd (snd (load_model env path st))) = current_model st
    \<and> served_model_name (snd (snd (load_model env path st))) = served_model_name st
    \<and> (is_dduf_file env path
         \<or> (\<exists>e'. snd (from_pretrained_chain env path (snd (select_device env))) = Inl e')
       \<longrightarrow> snd (snd (load_model env path st)) = st
           \<and> (pipeline st = None \<longrightarrow>
                generate_images env (snd (snd (load_model env path st))) prompt n width height
                    negative_prompt steps guidance seed
                  = ([], Inl (Exn RuntimeError ''No model loaded'' None None))))"
proof -
  have l: "load_model env path st = load_model_fresh env path st"
    using assms by (rule load_model_failed_fresh)
  have f: "fst (snd (load_model_fresh env path st)) = Inl e" using assms l by simp
  show ?thesis
    unfolding l
    using load_model_fresh_failed_state [OF f] generate_images_not_ready
    by auto
qed

lemma failed_load_keeps_state_example:
  "fst (snd (load_model demo_env ''org/none'' initial_state))
     = Inl (Exn OtherError ''model not found'' None None)
   \<and> snd (from_pretrained_chain demo_env ''org/none'' (snd (select_device demo_env)))
       = Inl (Exn OtherError ''model not found'' None None)
   \<and> pipeline initial_state = None
   \<and> snd (snd (load_model demo_env ''org/none'' initial_state)) = initial_state
   \<and> generate_images demo_env (snd (snd (load_model demo_env ''org/none'' initial_state)))
         ''a cat'' 1 512 512 None 50 7 (Some 42)
       = ([], Inl (Exn RuntimeError ''No model loaded'' None None))"
proof -
  have f: "fst (snd (load_model demo_env ''org/none'' initial_state))
     = Inl (Exn OtherError ''model not found'' None None)"
    by (simp add: load_unknown)
  have c: "snd (from_pretrained_chain demo_env ''org/none'' (snd (select_device demo_env)))
       = Inl (Exn OtherError ''model not found'' None None)"
    by code_simp
  have p: "pipeline initial_state = None" by (simp add: initial_state_def)
  show ?thesis
    using f c p
      failed_load_keeps_state [OF f, of "''a cat''" 1 512 512 None 50 7 "Some 42"]
    by auto
qed

text \<open>
  Claim C10 against the code. On the directory and remote branch \<^verbatim>\<open>load_model\<close> assigns
  the global \<^verbatim>\<open>pipeline\<close> as soon as a constructor returns, before the move to the
  device. When that move raises, the load fails and the global holds the constructed
  pipeline although none was resident before: \<^verbatim>\<open>/health\<close> reports that no model is
  loaded, while \<^verbatim>\<open>generate_images\<close> finds an engine and runs it. The branch for packaged
  archives assigns the global only after the move: the same failure there leaves the
  globals as they were.
\<close>

theorem failed_load_leaves_engine:
  "fst (snd (load_model no_memory_env ''/models/sd15'' initial_state))
     = Inl (Exn RuntimeError ''out of memory'' None None)
   \<and> pipeline initial_state = None
   \<and> pipeline (snd (snd (load_model no_memory_env ''/models/sd15'' initial_state)))
       = Some (Pipe 1)
   \<and> \<not> health (snd (snd (load_model no_memory_env ''/models/sd15'' initial_state)))
   \<and> snd (generate_images no_memory_env
            (snd (snd (load_model no_memory_env ''/models/sd15'' initial_state)))
            ''a cat'' 1 512 512 None 50 7 None)
       = Inr [[137, 80, 78, 71, 0]]
   \<and> load_model no_memory_env ''/models/sd.dduf'' initial_state
       = ([DiffusionFromPretrained ''/models'' (Some ''sd.dduf'') Float32, PipeTo (Pipe 3) Cpu],
          Inl (Exn RuntimeError ''Failed to load DDUF file: out of memory'' None
                 (Some (Exn RuntimeError ''out of memory'' None None))),
          initial_state)"
  by code_simp

section \<open>Generation: seeds, order and count\<close>

lemma seeds_of_append: "seeds_of (a @ b) = seeds_of a @ seeds_of b"
  by (induction a rule: seeds_of.induct) simp_all

lemma inference_args_append: "inference_args (a @ b) = inference_args a @ inference_args b"
  by (induction a rule: inference_args.induct) simp_all

lemma current_generator_seeded:
  "fst (current_generator env (Some g) (Some s) i) = [ManualSeed (generator_device env) (s + int i)]"
  "snd (current_generator env (Some g) (Some s) i)
     = (case manual_seed env (generator_device env) (s + int i) of
          Inl e \<Rightarrow> Inl e | Inr g' \<Rightarrow> Inr (Some g'))"
  by (simp_all add: current_generator_def split: sum.splits)

lemma current_generator_quiet:
  "seeds_of (fst (current_generator env gen seed i))
     = (case gen of None \<Rightarrow> [] | Some g \<Rightarrow> (case seed of None \<Rightarrow> [] | Some s \<Rightarrow> [s + int i]))"
  "inference_args (fst (current_generator env gen seed i)) = []"
  by (simp_all add: current_generator_def split: option.splits sum.splits)

lemma generate_one_seeds:
  "seeds_of (fst (generate_one env p mk gen seed i))
     = seeds_of (fst (current_generator env gen seed i))"
  by (auto simp: generate_one_def seeds_of_append split: prod.splits sum.splits list.splits)

lemma generate_one_success:
  assumes "snd (generate_one env p mk gen seed i) = Inr b"
  shows "\<exists>cg img more. snd (current_generator env gen seed i) = Inr cg
           \<and> inference_args (fst (generate_one env p mk gen seed i)) = [mk cg]
           \<and> run_pipeline env p (mk cg) = Inr (img # more)
           \<and> save_png env img = Inr b"
  using assms current_generator_quiet(2) [of env gen seed i]
  by (auto simp: generate_one_def inference_args_append
           split: prod.splits sum.splits list.splits)

lemma generate_loop_Cons:
  "generate_loop env p mk gen seed (i # rest) acc =
     (case snd (generate_one env p mk gen seed i) of
        Inl e \<Rightarrow> (fst (generate_one env p mk gen seed i), Inl e)
      | Inr b \<Rightarrow>
          (fst (generate_one env p mk gen seed i)
             @ fst (generate_loop env p mk gen seed rest (acc @ [b])),
           snd (generate_loop env p mk gen seed rest (acc @ [b]))))"
  by (simp split: prod.splits sum.splits)

text \<open>The calls of the loop are the calls of its turns, up to the turn that raises.\<close>

lemma generate_loop_calls:
  "\<exists>k\<le>length idx.
      fst (generate_loop env p mk gen seed idx acc)
        = concat (map (\<lambda>i. fst (generate_one env p mk gen seed i)) (take k idx))
      \<and> (\<forall>imgs. snd (generate_loop env p mk gen seed idx acc) = Inr imgs \<longrightarrow> k = length idx)"
proof (induction idx arbitrary: acc)
  case Nil
  then show ?case by simp
next
  case (Cons i rest)
  show ?case
  proof (cases "snd (generate_one env p mk gen seed i)")
    case (Inl e)
    then have "generate_loop env p mk gen seed (i # rest) acc
        = (fst (generate_one env p mk gen seed i), Inl e)"
      by (simp only: generate_loop_Cons sum.case)
    then show ?thesis by (intro exI [of _ 1]) simp
  next
    case (Inr b)
    obtain k where k: "k \<le> length rest"
      "fst (generate_loop env p mk gen seed rest (acc @ [b]))
        = concat (map (\<lambda>i. fst (generate_one env p mk gen seed i)) (take k rest))"
      "\<forall>imgs. snd (generate_loop env p mk gen seed rest (acc @ [b])) = Inr imgs
          \<longrightarrow> k = length rest"
      using Cons.IH [of "acc @ [b]"] by blast
    have "generate_loop env p mk gen seed (i # rest) acc
        = (fst (generate_one env p mk gen seed i)
             @ fst (generate_loop env p mk gen seed rest (acc @ [b])),
           snd (generate_loop env p mk gen seed rest (acc @ [b])))"
      using Inr by (simp only: generate_loop_Cons sum.case)
    then show ?thesis using k by (intro exI [of _ "Suc k"]) simp
  qed
qed

lemma generate_loop_success:
  assumes "snd (generate_loop env p mk gen seed idx acc) = Inr imgs"
  shows "\<exists>bs. imgs = acc @ bs \<and> length bs = length idx
           \<and> (\<forall>j<length idx. snd (generate_one env p mk gen seed (idx ! j)) = Inr (bs ! j))"
  using assms
proof (induction idx arbitrary: acc)
  case Nil
  then show ?case by simp
next
  case (Cons i rest)
  show ?case
  proof (cases "snd (generate_one env p mk gen seed i)")
    case (Inl e)
    then show ?thesis using Cons.prems by (simp only: generate_loop_Cons sum.case) simp
  next
    case (Inr b)
    then have "snd (generate_loop env p mk gen seed rest (acc @ [b])) = Inr imgs"
      using Cons.prems by (simp only: generate_loop_Cons sum.case) simp
    then obtain bs where bs: "imgs = (acc @ [b]) @ bs" "length bs = length rest"
      "\<forall>j<length rest. snd (generate_one env p mk gen seed (rest ! j)) = Inr (bs ! j)"
      using Cons.IH [of "acc @ [b]"] by blast
    have "\<forall>j<length (i # rest).
            snd (generate_one env p mk gen seed ((i # rest) ! j)) = Inr ((b # bs) ! j)"
      using bs(3) Inr by (auto simp: nth_Cons split: nat.splits)
    then show ?thesis using bs(1,2) by (intro exI [of _ "b # bs"]) simp
  qed
qed

lemma generate_loop_results:
  assumes "snd (generate_loop env p mk gen seed idx acc) = Inr imgs"
  shows "\<exists>bs. imgs = acc @ bs \<and> length bs = length idx
           \<and> length (inference_args (fst (generate_loop env p mk gen seed idx acc))) = length idx
           \<and> (\<forall>j<length idx. \<exists>cg img more.
                  snd (current_generator env gen seed (idx ! j)) = Inr cg
                  \<and> inference_args (fst (generate_loop env p mk gen seed idx acc)) ! j = mk cg
                  \<and> run_pipeline env p (mk cg) = Inr (img # more)
                  \<and> save_png env img = Inr (bs ! j))"
  using assms
proof (induction idx arbitrary: acc)
  case Nil
  then show ?case by simp
next
  case (Cons i rest)
  show ?case
  proof (cases "snd (generate_one env p mk gen seed i)")
    case (Inl e)
    then show ?thesis using Cons.prems by (simp only: generate_loop_Cons sum.case) simp
  next
    case (Inr b)
    let ?one = "fst (generate_one env p mk gen seed i)"
    let ?tl = "generate_loop env p mk gen seed rest (acc @ [b])"
    have step: "generate_loop env p mk gen seed (i # rest) acc = (?one @ fst ?tl, snd ?tl)"
      using Inr by (simp only: generate_loop_Cons sum.case)
    then have "snd ?tl = Inr imgs" using Cons.prems by simp
    then obtain bs where bs: "imgs = (acc @ [b]) @ bs" "length bs = length rest"
      "length (inference_args (fst ?tl)) = length rest"
      "\<forall>j<length rest. \<exists>cg img more.
          snd (current_generator env gen seed (rest ! j)) = Inr cg
          \<and> inference_args (fst ?tl) ! j = mk cg
          \<and> run_pipeline env p (mk cg) = Inr (img # more)
          \<and> save_png env img = Inr (bs ! j)"
      using Cons.IH [of "acc @ [b]"] by blast
    obtain cg img more where one: "snd (current_generator env gen seed i) = Inr cg"
      "inference_args ?one = [mk cg]" "run_pipeline env p (mk cg) = Inr (img # more)"
      "save_png env img = Inr b"
      using generate_one_success [OF Inr] by blast
    have args: "inference_args (fst (generate_loop env p mk gen seed (i # rest) acc))
        = mk cg # inference_args (fst ?tl)"
      using step one(2) by (simp add: inference_args_append)
    have "\<forall>j<length (i # rest). \<exists>cg img more.
          snd (current_generator env gen seed ((i # rest) ! j)) = Inr cg
          \<and> inference_args (fst (generate_loop env p mk gen seed (i # rest) acc)) ! j = mk cg
          \<and> run_pipeline env p (mk cg) = Inr (img # more)
          \<and> save_png env img = Inr ((b # bs) ! j)"
    proof (intro allI impI)
      fix j assume j: "j < length (i # rest)"
      show "\<exists>cg img more.
          snd (current_generator env gen seed ((i # rest) ! j)) = Inr cg
          \<and> inference_args (fst (generate_loop env p mk gen seed (i # rest) acc)) ! j = mk cg
          \<and> run_pipeline env p (mk cg) = Inr (img # more)
          \<and> save_png env img = Inr ((b # bs) ! j)"
      proof (cases j)
        case 0
        then show ?thesis using one args by auto
      next
        case (Suc j')
        then have "j' < length rest" using j by simp
        then show ?thesis using bs(4) args Suc by auto
      qed
    qed
    then show ?thesis using bs(1,2,3) args by (intro exI [of _ "b # bs"]) simp
  qed
qed

lemma seeds_of_concat: "seeds_of (concat xss) = concat (map seeds_of xss)"
  by (induction xss) (simp_all add: seeds_of_append)

lemma generate_loop_seeds:
  "\<exists>k\<le>length idx.
      seeds_of (fst (generate_loop env p mk (Some g) (Some s) idx acc))
        = map (\<lambda>i. s + int i) (take k idx)
      \<and> (\<forall>imgs. snd (generate_loop env p mk (Some g) (Some s) idx acc) = Inr imgs
            \<longrightarrow> k = length idx)"
proof -
  obtain k where k: "k \<le> length idx"
    "fst (generate_loop env p mk (Some g) (Some s) idx acc)
        = concat (map (\<lambda>i. fst (generate_one env p mk (Some g) (Some s) i)) (take k idx))"
    "\<forall>imgs. snd (generate_loop env p mk (Some g) (Some s) idx acc) = Inr imgs
        \<longrightarrow> k = length idx"
    using generate_loop_calls [of idx env p mk "Some g" "Some s" acc] by blast
  have "seeds_of (fst (generate_loop env p mk (Some g) (Some s) idx acc))
      = concat (map (\<lambda>i. [s + int i]) (take k idx))"
    unfolding k(2) seeds_of_concat
    by (simp add: comp_def generate_one_seeds current_generator_quiet)
  also have "\<dots> = map (\<lambda>i. s + int i) (take k idx)"
    by (induction "take k idx" arbitrary: k idx) (simp_all add: concat_map_singleton)
  finally show ?thesis using k(1,3) by blast
qed

lemma generate_images_unseeded:
  "pipeline st = Some p \<Longrightarrow>
   generate_images env st prompt n width height negative_prompt steps guidance None
     = generate_loop env p (pipeline_kwargs prompt width height negative_prompt steps guidance)
         None None [0..<nat n] []"
  by (simp add: generate_images_def)

lemma generate_images_seeded:
  "pipeline st = Some p \<Longrightarrow>
   generate_images env st prompt n width height negative_prompt steps guidance (Some s)
     = (case manual_seed env (generator_device env) s of
          Inl e \<Rightarrow> ([ManualSeed (generator_device env) s], Inl e)
        | Inr g \<Rightarrow>
            (ManualSeed (generator_device env) s
               # fst (generate_loop env p
                        (pipeline_kwargs prompt width height negative_prompt steps guidance)
                        (Some g) (Some s) [0..<nat n] []),
             snd (generate_loop env p
                    (pipeline_kwargs prompt width height negative_prompt steps guidance)
                    (Some g) (Some s) [0..<nat n] [])))"
  by (simp add: generate_images_def split: sum.splits prod.splits)

lemma generate_images_results:
  assumes "pipeline st = Some p"
    and "generate_images env st prompt n width height negative_prompt steps guidance seed
           = (tr, Inr imgs)"
  shows "length imgs = nat n \<and> length (inference_args tr) = nat n
     \<and> (\<forall>i<nat n. \<exists>img more. run_pipeline env p (inference_args tr ! i) = Inr (img # more)
            \<and> save_png env img = Inr (imgs ! i))"
proof (cases seed)
  case None
  let ?loop = "generate_loop env p
       (pipeline_kwargs prompt width height negative_prompt steps guidance) None None
       [0..<nat n] []"
  have l: "?loop = (tr, Inr imgs)"
    using assms None by (simp add: generate_images_unseeded)
  then have "snd ?loop = Inr imgs" by simp
  from generate_loop_results [OF this] show ?thesis using l by fastforce
next
  case (Some s)
  have g: "generate_images env st prompt n width height negative_prompt steps guidance (Some s)
           = (tr, Inr imgs)" using assms(2) Some by simp
  then obtain g0 where g0: "manual_seed env (generator_device env) s = Inr g0"
    unfolding generate_images_seeded [OF assms(1)] by (auto split: sum.splits)
  let ?loop = "generate_loop env p
       (pipeline_kwargs prompt width height negative_prompt steps guidance) (Some g0) (Some s)
       [0..<nat n] []"
  have tr: "tr = ManualSeed (generator_device env) s # fst ?loop" and r: "snd ?loop = Inr imgs"
    using g g0 unfolding generate_images_seeded [OF assms(1)] by simp_all
  have ia: "inference_args tr = inference_args (fst ?loop)" using tr by simp
  from generate_loop_results [OF r] show ?thesis unfolding ia by fastforce
qed

text \<open>
  Claim C7. Without a resident engine \<^verbatim>\<open>generate_images\<close> raises "No model loaded" and
  has called no library function. With one, a call that returns gives as many buffers as
  images were asked for (\<open>nat n\<close>, which is \<open>n\<close> for the counts a request can carry), has
  made that many inference calls, and buffer \<open>i\<close> is the PNG of the first image of
  inference call \<open>i\<close>. The result is a sum: a call that raises returns no buffer at all.
\<close>

theorem generate_all_or_nothing:
  "(pipeline st = None \<longrightarrow>
      generate_images env st prompt n width height negative_prompt steps guidance seed
        = ([], Inl (Exn RuntimeError ''No model loaded'' None None)))
   \<and> (\<forall>p tr imgs. pipeline st = Some p
         \<and> generate_images env st prompt n width height negative_prompt steps guidance seed
             = (tr, Inr imgs)
        \<longrightarrow> length imgs = nat n \<and> length (inference_args tr) = nat n
            \<and> (\<forall>i<nat n. \<exists>img more.
                   run_pipeline env p (inference_args tr ! i) = Inr (img # more)
                   \<and> save_png env img = Inr (imgs ! i)))"
  using generate_images_not_ready [of st env prompt n width height negative_prompt steps guidance seed]
    generate_images_results [of st _ env prompt n width height negative_prompt steps guidance seed]
  by blast

lemma demo_batch:
  "generate_images demo_env demo_state ''a cat'' 2 512 512 None 50 7 (Some 42)
     = ([ManualSeed Cpu 42,
         ManualSeed Cpu 42,
         PipelineCall (Pipe 1) (pipeline_kwargs ''a cat'' 512 512 None 50 7 (Some (Generator 42))),
         SavePng (RawImage 43),
         ManualSeed Cpu 43,
         PipelineCall (Pipe 1) (pipeline_kwargs ''a cat'' 512 512 None 50 7 (Some (Generator 43))),
         SavePng (RawImage 44)],
        Inr [[137, 80, 78, 71, 43], [137, 80, 78, 71, 44]])"
  by (simp add: generate_images_def demo_state_def demo_env_def generate_one_def
        current_generator_def generator_device_def pipeline_kwargs_def upt_rec)

theorem generate_all_or_nothing_witness:
  "pipeline initial_state = None
   \<and> generate_images demo_env initial_state ''a cat'' 2 512 512 None 50 7 (Some 42)
       = ([], Inl (Exn RuntimeError ''No model loaded'' None None))
   \<and> pipeline demo_state = Some (Pipe 1)
   \<and> snd (generate_images demo_env demo_state ''a cat'' 2 512 512 None 50 7 (Some 42))
       = Inr [[137, 80, 78, 71, 43], [137, 80, 78, 71, 44]]
   \<and> length [[137, 80, 78, 71, 43], [137, 80, 78, 71, 44 :: nat]] = nat 2"
proof -
  have a: "pipeline initial_state = None" by (simp add: initial_state_def)
  have b: "pipeline demo_state = Some (Pipe 1)" by (simp add: demo_state_def)
  show ?thesis
    using a b demo_batch
      generate_all_or_nothing [of initial_state demo_env "''a cat''" 2 512 512 None 50 7 "Some 42"]
      generate_all_or_nothing [of demo_state demo_env "''a cat''" 2 512 512 None 50 7 "Some 42"]
    by simp
qed

lemma current_generator_shift:
  "current_generator env (Some g') (Some (s + int i)) 0 = current_generator env (Some g) (Some s) i"
  by (simp add: current_generator_def split: sum.splits)

lemma generate_one_shift:
  "generate_one env p mk (Some g') (Some (s + int i)) 0 = generate_one env p mk (Some g) (Some s) i"
  by (simp add: generate_one_def current_generator_shift [of env g' s i g])

lemma generate_images_single:
  assumes "pipeline st = Some p"
    and "manual_seed env (generator_device env) s = Inr g"
    and "snd (generate_one env p
                (pipeline_kwargs prompt width height negative_prompt steps guidance)
                (Some g) (Some s) 0) = Inr b"
  shows "snd (generate_images env st prompt 1 width height negative_prompt steps guidance (Some s))
           = Inr [b]"
  using assms
  by (simp add: generate_images_seeded generate_loop_Cons del: generate_loop.simps(2))

lemma generate_images_seeds:
  assumes "pipeline st = Some p"
  shows "\<exists>k\<le>nat n.
      seeds_of (fst (generate_images env st prompt n width height negative_prompt steps
                       guidance (Some s)))
        = s # map (\<lambda>i. s + int i) [0..<k]
      \<and> (\<forall>imgs. snd (generate_images env st prompt n width height negative_prompt steps
                         guidance (Some s)) = Inr imgs \<longrightarrow> k = nat n)"
proof (cases "manual_seed env (generator_device env) s")
  case (Inl e)
  then show ?thesis
    unfolding generate_images_seeded [OF assms] by (intro exI [of _ 0]) simp
next
  case (Inr g)
  let ?mk = "pipeline_kwargs prompt width height negative_prompt steps guidance"
  obtain k where k: "k \<le> length [0..<nat n]"
    "seeds_of (fst (generate_loop env p ?mk (Some g) (Some s) [0..<nat n] []))
        = map (\<lambda>i. s + int i) (take k [0..<nat n])"
    "\<forall>imgs. snd (generate_loop env p ?mk (Some g) (Some s) [0..<nat n] []) = Inr imgs
        \<longrightarrow> k = length [0..<nat n]"
    using generate_loop_seeds [of "[0..<nat n]" env p ?mk g s "[]"] by blast
  have t: "take k [0..<nat n] = [0..<k]" using k(1) by (simp add: take_upt)
  show ?thesis
    unfolding generate_images_seeded [OF assms]
    using Inr k t by (intro exI [of _ k]) simp
qed

lemma generate_images_seeded_results:
  assumes "pipeline st = Some p"
    and "snd (generate_images env st prompt n width height negative_prompt steps guidance
                (Some s)) = Inr imgs"
    and "i < nat n"
  shows "(\<exists>g. manual_seed env (generator_device env) (s + int i) = Inr g
            \<and> arg_generator (inference_args
                  (fst (generate_images env st prompt n width height negative_prompt steps
                          guidance (Some s))) ! i) = Some g)
     \<and> snd (generate_images env st prompt 1 width height negative_prompt steps guidance
               (Some (s + int i))) = Inr [imgs ! i]"
proof -
  let ?mk = "pipeline_kwargs prompt width height negative_prompt steps guidance"
  obtain g0 where g0: "manual_seed env (generator_device env) s = Inr g0"
    using assms(2) unfolding generate_images_seeded [OF assms(1)] by (auto split: sum.splits)
  let ?loop = "generate_loop env p ?mk (Some g0) (Some s) [0..<nat n] []"
  have tr: "fst (generate_images env st prompt n width height negative_prompt steps guidance
                   (Some s)) = ManualSeed (generator_device env) s # fst ?loop"
    and r: "snd ?loop = Inr imgs"
    using assms(2) g0 unfolding generate_images_seeded [OF assms(1)] by simp_all
  obtain bs where bs: "imgs = [] @ bs" "length bs = length [0..<nat n]"
      "\<forall>j<length [0..<nat n]. \<exists>cg img more.
          snd (current_generator env (Some g0) (Some s) ([0..<nat n] ! j)) = Inr cg
          \<and> inference_args (fst ?loop) ! j = ?mk cg
          \<and> run_pipeline env p (?mk cg) = Inr (img # more)
          \<and> save_png env img = Inr (bs ! j)"
    using generate_loop_results [OF r] by blast
  have i: "i < length [0..<nat n]" "[0..<nat n] ! i = i" using assms(3) by simp_all
  obtain cg where cg: "snd (current_generator env (Some g0) (Some s) i) = Inr cg"
      "inference_args (fst ?loop) ! i = ?mk cg"
    using bs(3) i by metis
  obtain g where g: "manual_seed env (generator_device env) (s + int i) = Inr g" "cg = Some g"
    using cg(1) unfolding current_generator_seeded(2) by (auto split: sum.splits)
  have first: "arg_generator (inference_args
                  (fst (generate_images env st prompt n width height negative_prompt steps
                          guidance (Some s))) ! i) = Some g"
    unfolding tr using cg(2) g(2) by (simp add: pipeline_kwargs_def)
  have "snd (generate_one env p ?mk (Some g0) (Some s) i) = Inr (imgs ! i)"
    using generate_loop_success [OF r] i by auto
  then have "snd (generate_one env p ?mk (Some g) (Some (s + int i)) 0) = Inr (imgs ! i)"
    using generate_one_shift [of env p ?mk g s i g0] by simp
  then have "snd (generate_images env st prompt 1 width height negative_prompt steps guidance
               (Some (s + int i))) = Inr [imgs ! i]"
    using generate_images_single [OF assms(1) g(1)] by blast
  then show ?thesis using g(1) first by blast
qed

text \<open>
  Claim C1. With a resident engine and a seed \<open>s\<close>, the seeds given to new generators
  are \<open>s\<close> for the generator made before the loop (which no inference call receives) and
  then \<open>s + 0\<close>, \<open>s + 1\<close>, ... in index order, one for each turn of the loop that was
  begun: all \<open>n\<close> of them when the call returns. In a call that returns, inference call
  \<open>i\<close> receives the generator seeded with \<open>s + i\<close>, and a call for one image with the
  seed \<open>s + i\<close> returns exactly the buffer of index \<open>i\<close>; the libraries being functions
  of their arguments, the same call gives the same result.
\<close>

theorem seeded_generation:
  assumes "pipeline st = Some p"
  shows "(\<exists>k\<le>nat n.
        seeds_of (fst (generate_images env st prompt n width height negative_prompt steps
                         guidance (Some s)))
          = s # map (\<lambda>i. s + int i) [0..<k]
        \<and> (\<forall>imgs. snd (generate_images env st prompt n width height negative_prompt steps
                           guidance (Some s)) = Inr imgs \<longrightarrow> k = nat n))
    \<and> (\<forall>imgs i. snd (generate_images env st prompt n width height negative_prompt steps
                        guidance (Some s)) = Inr imgs \<and> i < nat n
          \<longrightarrow> (\<exists>g. manual_seed env (generator_device env) (s + int i) = Inr g
                 \<and> arg_generator (inference_args
                       (fst (generate_images env st prompt n width height negative_prompt
                               steps guidance (Some s))) ! i) = Some g)
              \<and> snd (generate_images env st prompt 1 width height negative_prompt steps
                        guidance (Some (s + int i))) = Inr [imgs ! i])"
  using generate_images_seeds [OF assms, of n env prompt width height negative_prompt steps guidance s]
    generate_images_seeded_results [OF assms, of env prompt n width height negative_prompt steps guidance s]
  by blast

theorem seeded_generation_witness:
  "pipeline demo_state = Some (Pipe 1)
   \<and> seeds_of (fst (generate_images demo_env demo_state ''a cat'' 2 512 512 None 50 7 (Some 42)))
       = [42, 42, 43]
   \<and> snd (generate_images demo_env demo_state ''a cat'' 2 512 512 None 50 7 (Some 42))
       = Inr [[137, 80, 78, 71, 43], [137, 80, 78, 71, 44]]
   \<and> (1::nat) < nat 2
   \<and> snd (generate_images demo_env demo_state ''a cat'' 1 512 512 None 50 7 (Some (42 + int 1)))
       = Inr [[[137, 80, 78, 71, 43], [137, 80, 78, 71, 44]] ! 1]"
proof -
  have b: "pipeline demo_state = Some (Pipe 1)" by (simp add: demo_state_def)
  have r: "snd (generate_images demo_env demo_state ''a cat'' 2 512 512 None 50 7 (Some 42))
       = Inr [[137, 80, 78, 71, 43], [137, 80, 78, 71, 44]]"
    by (simp add: demo_batch)
  have i: "(1::nat) < nat 2" by simp
  have "snd (generate_images demo_env demo_state ''a cat'' 1 512 512 None 50 7 (Some (42 + int 1)))
       = Inr [[[137, 80, 78, 71, 43], [137, 80, 78, 71, 44]] ! 1]"
    using seeded_generation [OF b, of 2 demo_env "''a cat''" 512 512 None 50 7 42] r i
    by blast
  then show ?thesis using b r i by (simp add: demo_batch)
qed

section \<open>The model named by a request\<close>









section \<open>Size strings: what is accepted\<close>

lemma py_split_nonempty: "py_split sep s \<noteq> []"
  by (induction s) (auto split: list.splits)

lemma py_split_no_sep: "sep \<notin> set s \<Longrightarrow> py_split sep s = [s]"
  by (induction s) auto

lemma py_split_append:
  "sep \<notin> set a \<Longrightarrow> py_split sep (a @ sep # b) = a # py_split sep b"
  by (induction a) auto

lemma py_split_single: "py_split sep s = [a] \<Longrightarrow> s = a \<and> sep \<notin> set a"
proof (induction s arbitrary: a)
  case Nil
  then show ?case by simp
next
  case (Cons c s)
  show ?case
  proof (cases "c = sep")
    case True
    then show ?thesis using Cons.prems py_split_nonempty [of sep s] by simp
  next
    case False
    then obtain p ps where p: "py_split sep s = p # ps"
      using py_split_nonempty [of sep s] by (cases "py_split sep s") auto
    then have "a = c # p" "ps = []" using Cons.prems False by auto
    then show ?thesis using Cons.IH [of p] p False by auto
  qed
qed

lemma py_split_pair:
  "py_split sep s = [a, b] \<Longrightarrow> s = a @ sep # b \<and> sep \<notin> set a \<and> sep \<notin> set b"
proof (induction s arbitrary: a)
  case Nil
  then show ?case by simp
next
  case (Cons c s)
  show ?case
  proof (cases "c = sep")
    case True
    then have "a = []" "py_split sep s = [b]" using Cons.prems by auto
    then show ?thesis using py_split_single [of sep s b] True by auto
  next
    case False
    then obtain p ps where p: "py_split sep s = p # ps"
      using py_split_nonempty [of sep s] by (cases "py_split sep s") auto
    then have "a = c # p" "ps = [b]" using Cons.prems False by auto
    then show ?thesis using Cons.IH [of p] p False by auto
  qed
qed

lemma py_split_pair_iff:
  "py_split sep s = [a, b] \<longleftrightarrow> s = a @ sep # b \<and> sep \<notin> set a \<and> sep \<notin> set b"
  using py_split_pair [of sep s a b] by (auto simp: py_split_append py_split_no_sep)

lemma parse_size_try_returns:
  "parse_size_try env sz = Inr (w, h) \<longleftrightarrow>
     (\<exists>a b. py_split CHR ''x'' (lower sz) = [a, b]
        \<and> py_int env a = Inr w \<and> py_int env b = Inr h)"
  by (auto simp: parse_size_try_def split: list.splits sum.splits)

lemma parse_size_returns:
  "parse_size env sz = Inr r \<longleftrightarrow> parse_size_try env sz = Inr r"
  by (simp add: parse_size_def split: sum.splits)

lemma parse_size_raises:
  assumes "parse_size env sz = Inl e"
  shows "exn_kind e = ValueError \<and> (\<exists>pre post. exn_str e = pre @ sz @ post)"
proof -
  obtain e0 where "e = Exn ValueError
                 (''Invalid size format '' @ [CHR 0x27] @ sz @ [CHR 0x27]
                    @ ''. Expected format like '' @ [CHR 0x27] @ ''512x512'' @ [CHR 0x27]
                    @ '': '' @ exn_str e0)
                 None (Some e0)"
    using assms by (auto simp: parse_size_def split: sum.splits)
  then have "exn_kind e = ValueError"
    and "exn_str e = (''Invalid size format '' @ [CHR 0x27]) @ sz
           @ ([CHR 0x27] @ ''. Expected format like '' @ [CHR 0x27] @ ''512x512'' @ [CHR 0x27]
                @ '': '' @ exn_str e0)"
    by simp_all
  then show ?thesis by blast
qed

subsection \<open>Digit strings\<close>

lemma digit_char:
  assumes "is_digit c"
  shows "c \<noteq> CHR ''_''" "c \<noteq> CHR ''+''" "c \<noteq> CHR ''-''" "c \<noteq> CHR ''x''"
    "\<not> is_c_space c" "space_to_ascii c = c" "lower_char c = c"
  using assms
  by (auto simp: is_digit_def is_c_space_def space_to_ascii_def lower_char_def Let_def)

lemma no_double_underscore: "CHR ''_'' \<notin> set s \<Longrightarrow> \<not> double_underscore s"
  by (induction s rule: double_underscore.induct) auto

lemma magnitude_digits:
  assumes "ds \<noteq> []" and "\<forall>c\<in>set ds. is_digit c"
    and "\<not> over_digit_limit env (length ds)"
  shows "magnitude env ds = Some (digits_val ds)"
proof -
  have t: "takeWhile (\<lambda>c. is_digit c \<or> c = CHR ''_'') ds = ds"
    using assms(2) by (simp add: takeWhile_eq_all_conv)
  have dr: "dropWhile (\<lambda>c. is_digit c \<or> c = CHR ''_'') ds = []"
    using assms(2) by simp
  have f: "filter is_digit ds = ds" using assms(2) by simp
  have u: "CHR ''_'' \<notin> set ds" using assms(2) digit_char(1) by blast
  have h: "hd ds \<noteq> CHR ''_''" "last ds \<noteq> CHR ''_''"
    using u assms(1) by (metis hd_in_set, metis last_in_set)
  show ?thesis
    using assms(1,3) h no_double_underscore [OF u]
    by (simp add: magnitude_def Let_def t dr f)
qed

lemma py_int_digits:
  assumes "ds \<noteq> []" and "\<forall>c\<in>set ds. is_digit c"
    and "\<not> over_digit_limit env (length ds)"
  shows "py_int env ds = Inr (int (digits_val ds))"
proof -
  obtain c r where cr: "ds = c # r" using assms(1) by (cases ds) auto
  have c: "is_digit c" using assms(2) cr by simp
  have m: "map space_to_ascii ds = ds" using assms(2) by (simp add: map_idI digit_char(6))
  have d: "dropWhile is_c_space ds = ds" using cr c by (simp add: digit_char(5))
  have s: "strip_sign ds = (False, ds)"
    using c by (simp add: strip_sign_def cr digit_char)
  show ?thesis
    unfolding py_int_def m d s using magnitude_digits [OF assms] by simp
qed

lemma lower_digits: "\<forall>c\<in>set ds. is_digit c \<Longrightarrow> lower ds = ds"
  by (simp add: lower_def map_idI digit_char(7))

lemma lower_sep: "sep = CHR ''x'' \<or> sep = CHR ''X'' \<Longrightarrow> lower_char sep = CHR ''x''"
proof -
  have "lower_char CHR ''x'' = CHR ''x''" "lower_char CHR ''X'' = CHR ''x''" by code_simp+
  then show "sep = CHR ''x'' \<or> sep = CHR ''X'' \<Longrightarrow> lower_char sep = CHR ''x''" by auto
qed

lemma parse_size_digits:
  assumes "a \<noteq> []" "\<forall>c\<in>set a. is_digit c" "\<not> over_digit_limit env (length a)"
    and "b \<noteq> []" "\<forall>c\<in>set b. is_digit c" "\<not> over_digit_limit env (length b)"
    and "sep = CHR ''x'' \<or> sep = CHR ''X''"
  shows "parse_size env (a @ [sep] @ b) = Inr (int (digits_val a), int (digits_val b))"
proof -
  have l: "lower (a @ [sep] @ b) = a @ CHR ''x'' # b"
    using lower_digits [OF assms(2)] lower_digits [OF assms(5)] lower_sep [OF assms(7)]
    by (simp add: lower_def)
  have x: "CHR ''x'' \<notin> set a" "CHR ''x'' \<notin> set b"
    using assms(2,5) digit_char(4) by blast+
  have "py_split CHR ''x'' (lower (a @ [sep] @ b)) = [a, b]"
    unfolding l using x by (simp add: py_split_pair_iff)
  then have "parse_size_try env (a @ [sep] @ b) = Inr (int (digits_val a), int (digits_val b))"
    using py_int_digits [OF assms(1,2,3)] py_int_digits [OF assms(4,5,6)]
    unfolding parse_size_try_returns by blast
  then show ?thesis by (simp add: parse_size_returns)
qed

subsection \<open>Numerals\<close>

lemma digits_val_snoc: "digits_val (ds @ [c]) = 10 * digits_val ds + digit_val c"
  by (simp add: digits_val_def)

lemma digit_of_nat:
  assumes "k < 10"
  shows "is_digit (char_of (48 + k))" "digit_val (char_of (48 + k)) = k"
  using assms by (simp_all add: is_digit_def digit_val_def Let_def)

lemma dec_digits: "dec n \<noteq> [] \<and> (\<forall>c\<in>set (dec n). is_digit c) \<and> digits_val (dec n) = n"
proof (induction n rule: dec.induct)
  case (1 n)
  show ?case
  proof (cases "n < 10")
    case True
    then show ?thesis
      using digit_of_nat [of n] by (simp add: dec.simps [of n] digits_val_def)
  next
    case False
    have m: "n mod 10 < 10" by simp
    show ?thesis
      using 1 [OF False] False digit_of_nat [OF m]
      by (simp add: dec.simps [of n] digits_val_snoc)
  qed
qed

text \<open>
  Claim C4, amended. For natural numbers \<open>w\<close> and \<open>h\<close>, zero included, whose numerals
  stay within the digit limit of \<^verbatim>\<open>int\<close>, the string made of the numeral of \<open>w\<close>, an
  \<^verbatim>\<open>x\<close> or \<^verbatim>\<open>X\<close> and the numeral of \<open>h\<close> parses to exactly \<open>(w, h)\<close>. In general
  \<^verbatim>\<open>parse_size\<close> returns \<open>(wi, hi)\<close> exactly when the string in lower case has one
  \<^verbatim>\<open>x\<close> and \<^verbatim>\<open>int\<close> accepts the part before it with value \<open>wi\<close> and the part after
  it with value \<open>hi\<close>; signs, surrounding white space and single underscores between
  digits are accepted with it. For every other string it raises a \<^verbatim>\<open>ValueError\<close> whose
  text contains the string.
\<close>

theorem parse_size_shapes:
  "((sep = CHR ''x'' \<or> sep = CHR ''X'')
      \<and> \<not> over_digit_limit env (length (dec w)) \<and> \<not> over_digit_limit env (length (dec h))
     \<longrightarrow> parse_size env (dec w @ [sep] @ dec h) = Inr (int w, int h))
   \<and> (parse_size env sz = Inr (wi, hi)
        \<longleftrightarrow> (\<exists>a b. lower sz = a @ CHR ''x'' # b
               \<and> CHR ''x'' \<notin> set a \<and> CHR ''x'' \<notin> set b
               \<and> py_int env a = Inr wi \<and> py_int env b = Inr hi))
   \<and> (\<forall>e. parse_size env sz = Inl e
        \<longrightarrow> exn_kind e = ValueError \<and> (\<exists>pre post. exn_str e = pre @ sz @ post))"
proof -
  have one: "(sep = CHR ''x'' \<or> sep = CHR ''X'')
      \<and> \<not> over_digit_limit env (length (dec w)) \<and> \<not> over_digit_limit env (length (dec h))
     \<longrightarrow> parse_size env (dec w @ [sep] @ dec h) = Inr (int w, int h)"
    using parse_size_digits [of "dec w" env "dec h" sep] dec_digits [of w] dec_digits [of h]
    by simp
  have two: "parse_size env sz = Inr (wi, hi)
        \<longleftrightarrow> (\<exists>a b. lower sz = a @ CHR ''x'' # b
               \<and> CHR ''x'' \<notin> set a \<and> CHR ''x'' \<notin> set b
               \<and> py_int env a = Inr wi \<and> py_int env b = Inr hi)"
    unfolding parse_size_returns parse_size_try_returns py_split_pair_iff by blast
  show ?thesis using one two parse_size_raises [of env sz] by blast
qed

lemma dec_512: "dec 512 = ''512''" "dec 768 = ''768''"
  by code_simp+

lemma short_numeral: "n \<le> 640 \<Longrightarrow> \<not> over_digit_limit env n"
  by (simp add: over_digit_limit_def)

lemma parse_bare:
  "parse_size demo_env ''512''
     = Inl (Exn ValueError
              (''Invalid size format '' @ [CHR 0x27] @ ''512'' @ [CHR 0x27]
                 @ ''. Expected format like '' @ [CHR 0x27] @ ''512x512'' @ [CHR 0x27]
                 @ '': Invalid size format: 512'')
              None (Some (Exn ValueError ''Invalid size format: 512'' None None)))"
  by code_simp

theorem parse_size_shapes_witness:
  "\<not> over_digit_limit demo_env (length (dec 512))
   \<and> \<not> over_digit_limit demo_env (length (dec 768))
   \<and> parse_size demo_env ''512X768'' = Inr (512, 768)
   \<and> (\<exists>pre post.
         ''Invalid size format '' @ [CHR 0x27] @ ''512'' @ [CHR 0x27]
           @ ''. Expected format like '' @ [CHR 0x27] @ ''512x512'' @ [CHR 0x27]
           @ '': Invalid size format: 512'' = pre @ ''512'' @ post)"
proof -
  have l: "\<not> over_digit_limit demo_env (length (dec 512))"
          "\<not> over_digit_limit demo_env (length (dec 768))"
    by (simp_all add: dec_512 short_numeral)
  have a: "parse_size demo_env ''512X768'' = Inr (512, 768)"
    using parse_size_shapes [of "CHR ''X''" demo_env 512 768, THEN conjunct1] l
    by (simp add: dec_512)
  have b: "\<exists>pre post.
         ''Invalid size format '' @ [CHR 0x27] @ ''512'' @ [CHR 0x27]
           @ ''. Expected format like '' @ [CHR 0x27] @ ''512x512'' @ [CHR 0x27]
           @ '': Invalid size format: 512'' = pre @ ''512'' @ post"
    using parse_size_shapes [of "CHR ''X''" demo_env 512 768 "''512''",
        THEN conjunct2, THEN conjunct2, rule_format, OF parse_bare]
    by simp
  show ?thesis using l a b by blast
qed

text \<open>
  Claim C4 as stated fails: numbers that are not positive are returned, not refused.
\<close>

theorem parse_size_counterexample:
  "parse_size demo_env ''0x0'' = Inr (0, 0) \<and> parse_size demo_env ''-5X-7'' = Inr (- 5, - 7)"
  by code_simp

section \<open>Start-up failures\<close>

lemma root_cause_no_cause: "exn_cause e = None \<Longrightarrow> root_cause e = e"
  by (cases e) simp

lemma startup_failure_report:
  "run_stderr (startup_failure tr e st)
     = ''DIFFUSERS_ERROR: '' @ exn_str (root_cause e) @ [CHR 0x0A]
   \<and> run_status (startup_failure tr e st) = 1"
  by (simp add: startup_failure_def error_msg_def)

lemma main_failed_load:
  "fst (snd (load_model env model_path
        (initial_state\<lparr>served_model_name := py_or served_arg (Some model_path)\<rparr>))) = Inl e
   \<Longrightarrow> run_stderr (main env model_path served_arg)
         = ''DIFFUSERS_ERROR: '' @ exn_str (root_cause e) @ [CHR 0x0A]
       \<and> run_status (main env model_path served_arg) = 1"
  by (auto simp: main_def Let_def startup_failure_report split: prod.splits sum.splits)

text \<open>
  Claim C9 against the code. \<^verbatim>\<open>main\<close> follows \<^verbatim>\<open>__cause__\<close> only, and prints the text it
  finds as it is. The handler of \<^verbatim>\<open>load_model_from_dduf\<close> raises its \<^verbatim>\<open>RuntimeError\<close>
  without \<^verbatim>\<open>from\<close>, so the original exception is the \<^verbatim>\<open>__context__\<close> of the wrapper and
  not its cause: for a damaged archive the diagnostic carries the text of the wrapper,
  not the text \<^verbatim>\<open>boom\<close> of the original exception. And when the text of the exception has
  two lines, so has the diagnostic. The exit status is 1 in both runs.
\<close>

theorem startup_diagnostic_divergence:
  "diffusion_from_pretrained broken_archive_env ''/models'' (Some ''sd.dduf'') Float32
     = Inl (Exn OtherError ''boom'' None None)
   \<and> run_stderr (main broken_archive_env ''/models/sd.dduf'' None)
       = ''DIFFUSERS_ERROR: Failed to load DDUF file: boom'' @ [CHR 0x0A]
   \<and> run_status (main broken_archive_env ''/models/sd.dduf'' None) = 1
   \<and> run_stderr (main two_line_env ''org/none'' None)
       = ''DIFFUSERS_ERROR: not a valid model identifier'' @ [CHR 0x0A]
           @ ''log in first'' @ [CHR 0x0A]
   \<and> \<not> single_line (butlast (run_stderr (main two_line_env ''org/none'' None)))
   \<and> run_status (main two_line_env ''org/none'' None) = 1"
  by code_simp

end
